theory Spec2Isabelle
  imports Complex_Main "HOL-Library.AList"
begin

section \<open>The flow graph held by the editor (hook \<open>useFlowManager\<close>)\<close>

text \<open>
  A handle name on an edge or a connection is a string, \<open>null\<close> or absent
  (\<open>undefined\<close>); the strict comparison \<open>===\<close> of the source tells the three apart.
\<close>

datatype handle = HUndefined | HNull | HandleId string

record node =
  node_id :: string
  node_type :: string
  position :: "rat \<times> rat"
  data :: string

text \<open>
  The connection a connect gesture reports, and an edge: the connection's fields
  together with an id.
\<close>

record connection =
  source :: string
  sourceHandle :: handle
  target :: string
  targetHandle :: handle

record edge = connection +
  edge_id :: string

text \<open>The two pieces of React state the hook closes over.\<close>

record flow_state =
  nodes :: "node list"
  edges :: "edge list"

definition setNodes :: "(node list \<Rightarrow> node list) \<Rightarrow> flow_state \<Rightarrow> flow_state" where
  "setNodes f st = st\<lparr>nodes := f (nodes st)\<rparr>"

definition setEdges :: "(edge list \<Rightarrow> edge list) \<Rightarrow> flow_state \<Rightarrow> flow_state" where
  "setEdges f st = st\<lparr>edges := f (edges st)\<rparr>"

text \<open>The result object of \<open>validateFlow\<close>: \<open>{ isValid, error, message }\<close>.\<close>

record validation =
  isValid :: bool
  error :: "string option"

record flow_validation = validation +
  message :: "string option"

subsection \<open>\<open>onConnect\<close>\<close>

text \<open>
  \<open>addEdge\<close> is imported from the rendering library and is not part of the repository;
  it is a parameter of the model. The callback searches the edge list it closed over
  (\<open>edges\<close>, the state at the last render) and updates the current state (\<open>eds\<close>);
  the two are the same list when the connection arrives after the render.
\<close>

definition onConnect ::
  "(connection \<Rightarrow> edge list \<Rightarrow> edge list) \<Rightarrow> edge list \<Rightarrow> connection \<Rightarrow> flow_state
     \<Rightarrow> flow_state" where
  "onConnect addEdge closed_edges conn st =
     (case find (\<lambda>edge. source edge = source conn \<and> sourceHandle edge = sourceHandle conn)
             closed_edges of
        Some existingEdgeFromSource \<Rightarrow>
          setEdges (\<lambda>eds. addEdge conn
            (filter (\<lambda>edge. edge_id edge \<noteq> edge_id existingEdgeFromSource) eds)) st
      | None \<Rightarrow> setEdges (\<lambda>eds. addEdge conn eds) st)"

subsection \<open>\<open>deleteNode\<close>\<close>

definition deleteNode :: "string \<Rightarrow> flow_state \<Rightarrow> flow_state" where
  "deleteNode nodeId st =
     setEdges (\<lambda>eds. filter (\<lambda>edge. source edge \<noteq> nodeId \<and> target edge \<noteq> nodeId) eds)
       (setNodes (\<lambda>nds. filter (\<lambda>node. node_id node \<noteq> nodeId) nds) st)"

subsection \<open>\<open>validateFlow\<close>\<close>

definition disconnected_message :: string where
  "disconnected_message =
     ''Your flow has disconnected nodes that need to be connected. Please make sure all nodes (except the starting node) have incoming connections before saving.''"

definition nodesWithoutTargets :: "flow_state \<Rightarrow> node list" where
  "nodesWithoutTargets st =
     filter (\<lambda>node. \<not> list_ex (\<lambda>edge. target edge = node_id node) (edges st)) (nodes st)"

definition validateFlow :: "flow_state \<Rightarrow> flow_validation" where
  "validateFlow st =
     (if length (nodes st) \<le> 1 then \<lparr>isValid = True, error = None, message = None\<rparr>
      else if length (nodesWithoutTargets st) > 1
        then \<lparr>isValid = False, error = Some disconnected_message,
               message = Some disconnected_message\<rparr>
      else \<lparr>isValid = True, error = None, message = None\<rparr>)"

text \<open>
  The count the validator's rule speaks of, stated without the code: the number of
  positions of the node sequence whose node is the target of no edge.
\<close>

definition no_incoming_count :: "flow_state \<Rightarrow> nat" where
  "no_incoming_count st =
     card {i. i < length (nodes st) \<and> \<not> (\<exists>e \<in> set (edges st). target e = node_id (nodes st ! i))}"

subsection \<open>Notions of the specification, and a sample graph\<close>

text \<open>An edge leaves the output port of a connection: same \<open>(source, sourceHandle)\<close> pair.\<close>

definition same_port :: "connection \<Rightarrow> edge \<Rightarrow> bool" where
  "same_port conn e = (source e = source conn \<and> sourceHandle e = sourceHandle conn)"

text \<open>
  Modelled from the spec: the library function \<open>addEdge\<close> that \<open>onConnect\<close> calls is not
  among the sources. The specification says of it that the edge is simply appended and
  that the new edge is assigned a fresh unique id (here the argument \<open>fresh_id\<close>).
\<close>

definition appendEdge :: "string \<Rightarrow> connection \<Rightarrow> edge list \<Rightarrow> edge list" where
  "appendEdge fresh_id conn eds =
     eds @ [\<lparr>source = source conn, sourceHandle = sourceHandle conn, target = target conn,
             targetHandle = targetHandle conn, edge_id = fresh_id\<rparr>]"

definition nodeA :: node where
  "nodeA = \<lparr>node_id = ''A'', node_type = ''textMessage'', position = (0, 0), data = ''hello''\<rparr>"

definition nodeB :: node where
  "nodeB = \<lparr>node_id = ''B'', node_type = ''textMessage'', position = (250, 0), data = []\<rparr>"

definition nodeC :: node where
  "nodeC = \<lparr>node_id = ''C'', node_type = ''textMessage'', position = (500, 15), data = ''bye''\<rparr>"

definition edgeAB :: edge where
  "edgeAB = \<lparr>source = ''A'', sourceHandle = HNull, target = ''B'', targetHandle = HNull,
             edge_id = ''e1''\<rparr>"

definition edgeBC :: edge where
  "edgeBC = \<lparr>source = ''B'', sourceHandle = HNull, target = ''C'', targetHandle = HNull,
             edge_id = ''e2''\<rparr>"

definition edgeAC :: edge where
  "edgeAC = \<lparr>source = ''A'', sourceHandle = HNull, target = ''C'', targetHandle = HNull,
             edge_id = ''e3''\<rparr>"

definition connAB :: connection where
  "connAB = \<lparr>source = ''A'', sourceHandle = HNull, target = ''B'', targetHandle = HNull\<rparr>"

definition connAC :: connection where
  "connAC = \<lparr>source = ''A'', sourceHandle = HNull, target = ''C'', targetHandle = HNull\<rparr>"

definition graphABC :: "edge list \<Rightarrow> flow_state" where
  "graphABC es = \<lparr>nodes = [nodeA, nodeB, nodeC], edges = es\<rparr>"

section \<open>JavaScript values\<close>

text \<open>
  The storage manager receives and returns untyped JavaScript values and tests them with
  \<open>typeof\<close>, \<open>Array.isArray\<close> and truthiness. Numbers are the finite ones (as
  rationals; \<open>-0\<close> is identified with \<open>0\<close>) and the three non-finite values.
  An object is the list of its own properties in insertion order; a property read takes
  the first binding of a key.
\<close>

datatype jsnum = Finite rat | NaN | PosInfinity | NegInfinity

datatype jsval =
    JUndefined
  | JNull
  | JBool bool
  | JNum jsnum
  | JStr string
  | JArr "jsval list"
  | JObj "(string \<times> jsval) list"

fun truthy :: "jsval \<Rightarrow> bool" where
  "truthy JUndefined = False"
| "truthy JNull = False"
| "truthy (JBool b) = b"
| "truthy (JNum (Finite q)) = (q \<noteq> 0)"
| "truthy (JNum NaN) = False"
| "truthy (JNum PosInfinity) = True"
| "truthy (JNum NegInfinity) = True"
| "truthy (JStr s) = (s \<noteq> [])"
| "truthy (JArr xs) = True"
| "truthy (JObj kvs) = True"

fun typeof :: "jsval \<Rightarrow> string" where
  "typeof JUndefined = ''undefined''"
| "typeof JNull = ''object''"
| "typeof (JBool b) = ''boolean''"
| "typeof (JNum n) = ''number''"
| "typeof (JStr s) = ''string''"
| "typeof (JArr xs) = ''object''"
| "typeof (JObj kvs) = ''object''"

fun isArray :: "jsval \<Rightarrow> bool" where
  "isArray (JArr xs) = True"
| "isArray v = False"

definition nullish :: "jsval \<Rightarrow> bool" where
  "nullish v = (v = JUndefined \<or> v = JNull)"

text \<open>\<open>a || b\<close> on values.\<close>

definition js_or :: "jsval \<Rightarrow> jsval \<Rightarrow> jsval" where
  "js_or a b = (if truthy a then a else b)"

text \<open>Decimal rendering of an index, as a template literal or a property key shows it.\<close>

definition digit_char :: "nat \<Rightarrow> char" where
  "digit_char d = ''0123456789'' ! d"

function string_of_nat :: "nat \<Rightarrow> string" where
  "string_of_nat n =
     (if n < 10 then [digit_char n] else string_of_nat (n div 10) @ [digit_char (n mod 10)])"
  by pat_completeness auto
termination
  by (relation "measure id") auto

declare string_of_nat.simps [simp del]

text \<open>
  Exceptions carry a name and a message. A property read on \<open>undefined\<close> or
  \<open>null\<close> raises a \<open>TypeError\<close> (the message is the V8 engine's wording).
\<close>

datatype js_error = JsError (err_name: string) (err_message: string)

definition cannot_read :: "jsval \<Rightarrow> string \<Rightarrow> js_error" where
  "cannot_read v key =
     JsError ''TypeError''
       (''Cannot read properties of '' @ (if v = JNull then ''null'' else ''undefined'')
          @ '' (reading '' @ [CHR 0x27] @ key @ [CHR 0x27] @ '')'')"

definition andThen :: "'e + 'a \<Rightarrow> ('a \<Rightarrow> 'e + 'b) \<Rightarrow> 'e + 'b" where
  "andThen m f = (case m of Inl e \<Rightarrow> Inl e | Inr x \<Rightarrow> f x)"

text \<open>
  \<open>index_key n key\<close>: the position below \<open>n\<close> that the property key \<open>key\<close> names, if any.
\<close>

definition index_key :: "nat \<Rightarrow> string \<Rightarrow> nat option" where
  "index_key n key = find (\<lambda>i. string_of_nat i = key) [0..<n]"

text \<open>
  The value of \<open>v.key\<close> for a \<open>v\<close> that is neither \<open>undefined\<close> nor \<open>null\<close>. Inherited
  (prototype) properties other than \<open>length\<close> are left out: the manager reads only the
  keys \<open>nodes\<close>, \<open>edges\<close>, \<open>metadata\<close>, \<open>id\<close>, \<open>type\<close>, \<open>position\<close>, \<open>x\<close>, \<open>y\<close>,
  \<open>source\<close>, \<open>target\<close> and \<open>length\<close>.
\<close>

fun own_prop :: "jsval \<Rightarrow> string \<Rightarrow> jsval" where
  "own_prop (JObj kvs) key = (case map_of kvs key of Some v \<Rightarrow> v | None \<Rightarrow> JUndefined)"
| "own_prop (JArr xs) key =
     (if key = ''length'' then JNum (Finite (of_nat (length xs)))
      else case index_key (length xs) key of Some i \<Rightarrow> xs ! i | None \<Rightarrow> JUndefined)"
| "own_prop (JStr s) key =
     (if key = ''length'' then JNum (Finite (of_nat (length s)))
      else case index_key (length s) key of Some i \<Rightarrow> JStr [s ! i] | None \<Rightarrow> JUndefined)"
| "own_prop v key = JUndefined"

definition prop_read :: "jsval \<Rightarrow> string \<Rightarrow> js_error + jsval" where
  "prop_read v key = (if nullish v then Inl (cannot_read v key) else Inr (own_prop v key))"

text \<open>\<open>v?.key\<close>\<close>

definition opt_chain :: "jsval \<Rightarrow> string \<Rightarrow> jsval" where
  "opt_chain v key = (if nullish v then JUndefined else own_prop v key)"

text \<open>The properties an object spread \<open>{...v}\<close> copies.\<close>

fun spread :: "jsval \<Rightarrow> (string \<times> jsval) list" where
  "spread (JObj kvs) = kvs"
| "spread (JArr xs) = zip (map string_of_nat [0..<length xs]) xs"
| "spread (JStr s) = zip (map string_of_nat [0..<length s]) (map (\<lambda>c. JStr [c]) s)"
| "spread v = []"

text \<open>
  \<open>set_prop\<close> is a later property of an object literal: it replaces the value of a key
  already present (keeping its place) or is added at the end.
\<close>

definition set_prop :: "string \<Rightarrow> jsval \<Rightarrow> (string \<times> jsval) list \<Rightarrow> (string \<times> jsval) list" where
  "set_prop key v kvs = AList.update key v kvs"

subsection \<open>JSON text\<close>

text \<open>
  What \<open>JSON.parse\<close> reads back from the output of \<open>JSON.stringify\<close>: a property whose
  value is \<open>undefined\<close> is dropped, an \<open>undefined\<close> array element and every non-finite
  number become \<open>null\<close>. The manager passes object literals to \<open>JSON.stringify\<close>; the
  values here are finite trees, for which it does not throw.
\<close>

fun json_value :: "jsval \<Rightarrow> jsval"
  and json_elems :: "jsval list \<Rightarrow> jsval list"
  and json_props :: "(string \<times> jsval) list \<Rightarrow> (string \<times> jsval) list" where
  "json_value (JArr xs) = JArr (json_elems xs)"
| "json_value (JObj kvs) = JObj (json_props kvs)"
| "json_value (JNum (Finite q)) = JNum (Finite q)"
| "json_value (JNum NaN) = JNull"
| "json_value (JNum PosInfinity) = JNull"
| "json_value (JNum NegInfinity) = JNull"
| "json_value JUndefined = JUndefined"
| "json_value JNull = JNull"
| "json_value (JBool b) = JBool b"
| "json_value (JStr s) = JStr s"
| "json_elems [] = []"
| "json_elems (x # xs) = (if x = JUndefined then JNull else json_value x) # json_elems xs"
| "json_props [] = []"
| "json_props (kv # kvs) =
     (if snd kv = JUndefined then json_props kvs
      else (fst kv, json_value (snd kv)) # json_props kvs)"

text \<open>
  A stored string is either the JSON text of a value or a string that \<open>JSON.parse\<close>
  rejects with a \<open>SyntaxError\<close> (\<open>OtherText []\<close> is the empty string). JSON texts are
  told apart only by the value they parse to. The wording of an engine's \<open>SyntaxError\<close>
  message is not modelled; the manager only passes it on as \<open>details\<close>.
\<close>

datatype jstring = JsonText jsval | OtherText string

definition JSON_stringify :: "jsval \<Rightarrow> jstring" where
  "JSON_stringify v = JsonText (json_value v)"

definition JSON_parse :: "jstring \<Rightarrow> js_error + jsval" where
  "JSON_parse t =
     (case t of
        JsonText v \<Rightarrow> Inr v
      | OtherText s \<Rightarrow> Inl (JsError ''SyntaxError'' ''Unexpected token or end of JSON input''))"

text \<open>
  The test \<open>if (!s) ... \<close> on what \<open>getItem\<close> returned, a string or \<open>null\<close>: the first
  branch is taken for \<open>null\<close> and for the empty string, the second otherwise.
\<close>

definition if_text :: "jstring option \<Rightarrow> 'a \<Rightarrow> (jstring \<Rightarrow> 'a) \<Rightarrow> 'a" where
  "if_text s absent present =
     (case s of
        None \<Rightarrow> absent
      | Some t \<Rightarrow> if t = OtherText [] then absent else present t)"

section \<open>The storage medium\<close>

definition CURRENT_FLOW :: string where
  "CURRENT_FLOW = ''chatbot_flow_current''"

definition BACKUP_FLOW :: string where
  "BACKUP_FLOW = ''chatbot_flow_backup''"

definition STORAGE_VERSION :: string where
  "STORAGE_VERSION = ''1.0.0''"

definition test_key :: string where
  "test_key = ''__localStorage_test__''"

text \<open>
  The browser's \<open>localStorage\<close> (its items, and which writes it refuses: quota, access
  denied, not there at all) and the module's in-memory fallback object
  \<open>memoryStorage\<close>. Which writes the medium refuses, and with what exception, is a trait of
  the environment that depends on the key and the value written. A medium that
  accepts the probe write of \<open>isLocalStorageAvailable\<close> answers reads and removals.
\<close>

record world =
  ls_items :: "string \<rightharpoonup> jstring"
  ls_reject :: "string \<Rightarrow> jstring \<Rightarrow> js_error option"
  memoryStorage :: "string \<rightharpoonup> jstring"

type_synonym 'a outcome = "(js_error + 'a) \<times> world"

definition localStorage_setItem :: "string \<Rightarrow> jstring \<Rightarrow> world \<Rightarrow> unit outcome" where
  "localStorage_setItem key val w =
     (case ls_reject w key val of
        Some e \<Rightarrow> (Inl e, w)
      | None \<Rightarrow> (Inr (), w\<lparr>ls_items := (ls_items w)(key \<mapsto> val)\<rparr>))"

definition localStorage_removeItem :: "string \<Rightarrow> world \<Rightarrow> world" where
  "localStorage_removeItem key w = w\<lparr>ls_items := (ls_items w)(key := None)\<rparr>"

definition localStorage_getItem :: "string \<Rightarrow> world \<Rightarrow> jstring option" where
  "localStorage_getItem key w = ls_items w key"

definition isLocalStorageAvailable :: "world \<Rightarrow> bool \<times> world" where
  "isLocalStorageAvailable w =
     (case localStorage_setItem test_key (OtherText test_key) w of
        (Inl e, w1) \<Rightarrow> (False, w1)
      | (Inr u, w1) \<Rightarrow> (True, localStorage_removeItem test_key w1))"

definition storageWrapper_setItem :: "string \<Rightarrow> jstring \<Rightarrow> world \<Rightarrow> unit outcome" where
  "storageWrapper_setItem key val w =
     (case isLocalStorageAvailable w of
        (True, w1) \<Rightarrow> localStorage_setItem key val w1
      | (False, w1) \<Rightarrow> (Inr (), w1\<lparr>memoryStorage := (memoryStorage w1)(key \<mapsto> val)\<rparr>))"

definition storageWrapper_getItem :: "string \<Rightarrow> world \<Rightarrow> jstring option \<times> world" where
  "storageWrapper_getItem key w =
     (case isLocalStorageAvailable w of
        (True, w1) \<Rightarrow> (localStorage_getItem key w1, w1)
      | (False, w1) \<Rightarrow>
          ((case memoryStorage w1 key of
              Some t \<Rightarrow> if t = OtherText [] then None else Some t
            | None \<Rightarrow> None), w1))"

section \<open>\<open>FlowStorageManager\<close>\<close>

text \<open>
  The static methods of the class, called on the class as the application does
  (\<open>FlowStorageManager.saveCurrentFlow(flowData)\<close>), so that \<open>this\<close> is the class. An
  operation takes the world and returns its result with the world it leaves.
\<close>

text \<open>
  The result object of the storage operations: \<open>{ success: true, data, message, warning? }\<close>
  or \<open>{ success: false, error, code, details?, originalError? }\<close>.
\<close>

datatype result =
    Success (res_data: jsval) (res_message: string) (res_warning: "string option")
  | Failure (res_error: string) (res_code: string) (res_details: "string option")
      (res_originalError: "js_error option")

fun success :: "result \<Rightarrow> bool" where
  "success (Success d m w) = True"
| "success (Failure e c d oe) = False"

subsection \<open>\<open>validateFlowData\<close>\<close>

definition invalid :: "string \<Rightarrow> validation" where
  "invalid msg = \<lparr>isValid = False, error = Some msg\<rparr>"

definition node_missing_fields :: "nat \<Rightarrow> string" where
  "node_missing_fields i =
     ''Node at index '' @ string_of_nat i @ '' is missing required fields (id, type, position)''"

definition node_invalid_position :: "nat \<Rightarrow> string" where
  "node_invalid_position i =
     ''Node at index '' @ string_of_nat i @ '' has invalid position data''"

definition edge_missing_fields :: "nat \<Rightarrow> string" where
  "edge_missing_fields i =
     ''Edge at index '' @ string_of_nat i @ '' is missing required fields (id, source, target)''"

text \<open>
  One round of the node loop: \<open>Inr None\<close> when the loop goes on, \<open>Inr (Some r)\<close> when it
  returns \<open>r\<close>, \<open>Inl e\<close> when a property read throws.
\<close>

definition validate_node :: "nat \<Rightarrow> jsval \<Rightarrow> js_error + validation option" where
  "validate_node i node =
     andThen (prop_read node ''id'') (\<lambda>v_id.
       if \<not> truthy v_id then Inr (Some (invalid (node_missing_fields i)))
       else andThen (prop_read node ''type'') (\<lambda>v_type.
         if \<not> truthy v_type then Inr (Some (invalid (node_missing_fields i)))
         else andThen (prop_read node ''position'') (\<lambda>v_position.
           if \<not> truthy v_position then Inr (Some (invalid (node_missing_fields i)))
           else if typeof v_position \<noteq> ''object''
             then Inr (Some (invalid (node_invalid_position i)))
           else andThen (prop_read v_position ''x'') (\<lambda>v_x.
             if typeof v_x \<noteq> ''number'' then Inr (Some (invalid (node_invalid_position i)))
             else andThen (prop_read v_position ''y'') (\<lambda>v_y.
               if typeof v_y \<noteq> ''number''
                 then Inr (Some (invalid (node_invalid_position i)))
               else Inr None)))))"

definition validate_edge :: "nat \<Rightarrow> jsval \<Rightarrow> js_error + validation option" where
  "validate_edge i edge =
     andThen (prop_read edge ''id'') (\<lambda>v_id.
       if \<not> truthy v_id then Inr (Some (invalid (edge_missing_fields i)))
       else andThen (prop_read edge ''source'') (\<lambda>v_source.
         if \<not> truthy v_source then Inr (Some (invalid (edge_missing_fields i)))
         else andThen (prop_read edge ''target'') (\<lambda>v_target.
           if \<not> truthy v_target then Inr (Some (invalid (edge_missing_fields i)))
           else Inr None)))"

text \<open>The \<open>for\<close> loops, from index \<open>i\<close> on.\<close>

fun validate_nodes :: "nat \<Rightarrow> jsval list \<Rightarrow> js_error + validation option" where
  "validate_nodes i [] = Inr None"
| "validate_nodes i (node # rest) =
     (case validate_node i node of
        Inl e \<Rightarrow> Inl e
      | Inr (Some r) \<Rightarrow> Inr (Some r)
      | Inr None \<Rightarrow> validate_nodes (Suc i) rest)"

fun validate_edges :: "nat \<Rightarrow> jsval list \<Rightarrow> js_error + validation option" where
  "validate_edges i [] = Inr None"
| "validate_edges i (edge # rest) =
     (case validate_edge i edge of
        Inl e \<Rightarrow> Inl e
      | Inr (Some r) \<Rightarrow> Inr (Some r)
      | Inr None \<Rightarrow> validate_edges (Suc i) rest)"

fun elements :: "jsval \<Rightarrow> jsval list" where
  "elements (JArr xs) = xs"
| "elements v = []"

text \<open>The body of the \<open>try\<close> block.\<close>

definition validateFlowData_try :: "jsval \<Rightarrow> js_error + validation" where
  "validateFlowData_try flowData =
     (if \<not> truthy flowData \<or> typeof flowData \<noteq> ''object''
        then Inr (invalid ''Flow data must be a valid object'')
      else andThen (prop_read flowData ''nodes'') (\<lambda>v_nodes.
        if \<not> isArray v_nodes then Inr (invalid ''Nodes must be an array'')
        else andThen (prop_read flowData ''edges'') (\<lambda>v_edges.
          if \<not> isArray v_edges then Inr (invalid ''Edges must be an array'')
          else andThen (validate_nodes 0 (elements v_nodes)) (\<lambda>r.
            case r of
              Some bad \<Rightarrow> Inr bad
            | None \<Rightarrow> andThen (validate_edges 0 (elements v_edges)) (\<lambda>r.
                case r of
                  Some bad \<Rightarrow> Inr bad
                | None \<Rightarrow> Inr \<lparr>isValid = True, error = None\<rparr>)))))"

definition validateFlowData :: "jsval \<Rightarrow> validation" where
  "validateFlowData flowData =
     (case validateFlowData_try flowData of
        Inr r \<Rightarrow> r
      | Inl e \<Rightarrow> invalid (''Validation error: '' @ err_message e))"

subsection \<open>\<open>loadBackup\<close> and \<open>getCurrentFlow\<close>\<close>

definition loadBackup :: "world \<Rightarrow> result \<times> world" where
  "loadBackup w =
     (case storageWrapper_getItem BACKUP_FLOW w of
        (backupData, w1) \<Rightarrow>
          if_text backupData (Failure ''No backup available'' ''NO_BACKUP'' None None, w1)
            (\<lambda>backupData.
               case JSON_parse backupData of
                 Inr parsedBackup \<Rightarrow>
                   (Success parsedBackup ''Backup loaded successfully'' None, w1)
               | Inl e \<Rightarrow>
                   (Failure ''Failed to load backup data'' ''BACKUP_ERROR''
                      (Some (err_message e)) None, w1)))"

text \<open>
  The \<open>catch\<close> block of \<open>getCurrentFlow\<close>; \<open>error instanceof SyntaxError\<close> is read off the
  exception's name.
\<close>

definition getCurrentFlow_catch :: "js_error \<Rightarrow> result" where
  "getCurrentFlow_catch e =
     (if err_name e = ''SyntaxError''
        then Failure ''Saved flow data is corrupted and cannot be loaded'' ''PARSE_ERROR''
               (Some (err_message e)) None
      else Failure ''Failed to load flow due to an unknown error'' ''UNKNOWN_ERROR''
             (Some (err_message e)) None)"

definition getCurrentFlow :: "world \<Rightarrow> result \<times> world" where
  "getCurrentFlow w =
     (case storageWrapper_getItem CURRENT_FLOW w of
        (storedData, w1) \<Rightarrow>
          if_text storedData (Success JNull ''No saved flow found'' None, w1)
            (\<lambda>storedData.
               case JSON_parse storedData of
                 Inl e \<Rightarrow> (getCurrentFlow_catch e, w1)
               | Inr flowData \<Rightarrow>
                   let validation = validateFlowData flowData in
                   if \<not> isValid validation then
                     (case loadBackup w1 of
                        (backupResult, w2) \<Rightarrow>
                          if success backupResult then
                            (Success (res_data backupResult)
                               ''Loaded from backup due to corrupted primary data''
                               (Some ''Primary flow data was corrupted''), w2)
                          else
                            (Failure
                               (''Invalid flow data: '' @
                                  (case error validation of Some m \<Rightarrow> m | None \<Rightarrow> ''null''))
                               ''INVALID_DATA'' None None, w2))
                   else (Success flowData ''Flow loaded successfully'' None, w1)))"

subsection \<open>\<open>createBackup\<close> and \<open>saveCurrentFlow\<close>\<close>

text \<open>
  The clock readings of one save (\<open>new Date().toISOString()\<close>): in \<open>createBackup\<close>,
  for \<open>savedAt\<close> and for \<open>lastModified\<close>.
\<close>

record clock =
  backupCreatedAt_now :: string
  savedAt_now :: string
  lastModified_now :: string

definition backupData :: "string \<Rightarrow> jsval \<Rightarrow> jsval" where
  "backupData now flowData =
     JObj (set_prop ''isBackup'' (JBool True)
            (set_prop ''backupCreatedAt'' (JStr now) (spread flowData)))"

definition createBackup :: "string \<Rightarrow> jsval \<Rightarrow> world \<Rightarrow> bool \<times> world" where
  "createBackup now flowData w =
     (case storageWrapper_setItem BACKUP_FLOW (JSON_stringify (backupData now flowData)) w of
        (Inr u, w1) \<Rightarrow> (True, w1)
      | (Inl e, w1) \<Rightarrow> (False, w1))"

text \<open>
  The object literal \<open>enhancedFlowData\<close>; reading \<open>flowData.metadata\<close> throws when
  \<open>flowData\<close> is \<open>undefined\<close> or \<open>null\<close>.
\<close>

definition enhance :: "clock \<Rightarrow> jsval \<Rightarrow> js_error + jsval" where
  "enhance now flowData =
     andThen (prop_read flowData ''metadata'') (\<lambda>v_metadata.
       andThen (prop_read flowData ''nodes'') (\<lambda>v_nodes.
         andThen (prop_read flowData ''edges'') (\<lambda>v_edges.
           Inr (JObj (set_prop ''metadata''
                  (JObj
                     (set_prop ''lastModified'' (JStr (lastModified_now now))
                     (set_prop ''edgeCount''
                        (js_or (opt_chain v_edges ''length'') (JNum (Finite 0)))
                     (set_prop ''nodeCount''
                        (js_or (opt_chain v_nodes ''length'') (JNum (Finite 0)))
                     (set_prop ''savedAt'' (JStr (savedAt_now now))
                     (set_prop ''version'' (JStr STORAGE_VERSION)
                        (spread v_metadata)))))))
                  (spread flowData))))))"

text \<open>\<open>s.includes(sub)\<close>\<close>

fun str_includes :: "string \<Rightarrow> string \<Rightarrow> bool" where
  "str_includes [] sub = (sub = [])"
| "str_includes (c # cs) sub = (take (length sub) (c # cs) = sub \<or> str_includes cs sub)"

text \<open>The \<open>catch\<close> block of \<open>saveCurrentFlow\<close>.\<close>

definition saveCurrentFlow_catch :: "js_error \<Rightarrow> result" where
  "saveCurrentFlow_catch e =
     (if err_name e = ''QuotaExceededError'' then
        Failure ''Storage quota exceeded. Please clear some data and try again.''
          ''STORAGE_QUOTA_EXCEEDED'' (Some (err_message e)) (Some e)
      else if str_includes (err_message e) ''JSON'' then
        Failure ''Failed to prepare flow data for saving''
          ''SERIALIZATION_ERROR'' (Some (err_message e)) (Some e)
      else if str_includes (err_message e) ''localStorage'' \<or> err_name e = ''SecurityError'' then
        Failure
          ''Cannot access storage. This may be due to private browsing mode or browser security settings.''
          ''STORAGE_ACCESS_ERROR'' (Some (err_message e)) (Some e)
      else
        Failure ''Failed to save flow due to an unknown error''
          ''UNKNOWN_ERROR'' (Some (err_message e)) (Some e))"

definition saveCurrentFlow :: "clock \<Rightarrow> jsval \<Rightarrow> world \<Rightarrow> result \<times> world" where
  "saveCurrentFlow now flowData w =
     (case getCurrentFlow w of
        (existingFlow, w1) \<Rightarrow>
          let w2 = (if success existingFlow \<and> truthy (res_data existingFlow)
                    then snd (createBackup (backupCreatedAt_now now) (res_data existingFlow) w1)
                    else w1)
          in (case enhance now flowData of
               Inl e \<Rightarrow> (saveCurrentFlow_catch e, w2)
             | Inr enhancedFlowData \<Rightarrow>
                 let validation = validateFlowData enhancedFlowData in
                 if \<not> isValid validation then
                   (Failure
                      (''Flow validation failed: '' @
                         (case error validation of Some m \<Rightarrow> m | None \<Rightarrow> ''null''))
                      ''VALIDATION_ERROR'' None None, w2)
                 else (case isLocalStorageAvailable w2 of
                    (False, w3) \<Rightarrow>
                      (Failure
                         ''Local storage is not available in your browser. Changes will be lost when you close the tab.''
                         ''STORAGE_NOT_SUPPORTED'' None None, w3)
                  | (True, w3) \<Rightarrow>
                      (case storageWrapper_setItem CURRENT_FLOW
                              (JSON_stringify enhancedFlowData) w3 of
                         (Inl e, w4) \<Rightarrow> (saveCurrentFlow_catch e, w4)
                       | (Inr u, w4) \<Rightarrow>
                           (case storageWrapper_getItem CURRENT_FLOW w4 of
                              (verificationData, w5) \<Rightarrow>
                                if_text verificationData
                                  (saveCurrentFlow_catch
                                     (JsError ''Error'' ''Failed to verify saved data''), w5)
                                  (\<lambda>verificationData.
                                     (Success enhancedFlowData ''Flow saved successfully'' None,
                                      w5)))))))"

section \<open>Notions of the specification for the storage manager\<close>

text \<open>
  Storage is available when the probe write of \<open>isLocalStorageAvailable\<close> is accepted;
  \<open>probed w\<close> is the world after a probe (the probe removes its scratch key). The
  content of a slot is what the storage wrapper reads there.
\<close>

definition available :: "world \<Rightarrow> bool" where
  "available w = (ls_reject w test_key (OtherText test_key) = None)"

definition probed :: "world \<Rightarrow> world" where
  "probed w = (if available w then localStorage_removeItem test_key w else w)"

definition slot :: "string \<Rightarrow> world \<Rightarrow> jstring option" where
  "slot key w = fst (storageWrapper_getItem key w)"

text \<open>
  A value that JSON text represents as it is: no \<open>undefined\<close> and no non-finite number
  anywhere in it.
\<close>

fun is_json :: "jsval \<Rightarrow> bool"
  and are_json :: "jsval list \<Rightarrow> bool"
  and props_json :: "(string \<times> jsval) list \<Rightarrow> bool" where
  "is_json (JArr xs) = are_json xs"
| "is_json (JObj kvs) = props_json kvs"
| "is_json (JNum (Finite q)) = True"
| "is_json (JNum NaN) = False"
| "is_json (JNum PosInfinity) = False"
| "is_json (JNum NegInfinity) = False"
| "is_json JUndefined = False"
| "is_json JNull = True"
| "is_json (JBool b) = True"
| "is_json (JStr s) = True"
| "are_json [] = True"
| "are_json (x # xs) = (is_json x \<and> are_json xs)"
| "props_json [] = True"
| "props_json (kv # kvs) = (is_json (snd kv) \<and> props_json kvs)"

text \<open>
  Structural validity in the words of the specification. A value has a field when it is
  neither \<open>undefined\<close> nor \<open>null\<close> and the field's value is not empty in the sense of
  the language (not \<open>undefined\<close>, \<open>null\<close>, \<open>false\<close>, \<open>0\<close>, \<open>NaN\<close> or the empty string).
\<close>

definition has_field :: "jsval \<Rightarrow> string \<Rightarrow> bool" where
  "has_field v key = (\<not> nullish v \<and> truthy (own_prop v key))"

fun numeric :: "jsval \<Rightarrow> bool" where
  "numeric (JNum n) = True"
| "numeric v = False"

fun is_object :: "jsval \<Rightarrow> bool" where
  "is_object (JArr xs) = True"
| "is_object (JObj kvs) = True"
| "is_object v = False"

definition spec_node_ok :: "jsval \<Rightarrow> bool" where
  "spec_node_ok node =
     (has_field node ''id'' \<and> has_field node ''type'' \<and> has_field node ''position'' \<and>
      is_object (own_prop node ''position'') \<and>
      numeric (own_prop (own_prop node ''position'') ''x'') \<and>
      numeric (own_prop (own_prop node ''position'') ''y''))"

definition spec_edge_ok :: "jsval \<Rightarrow> bool" where
  "spec_edge_ok edge =
     (has_field edge ''id'' \<and> has_field edge ''source'' \<and> has_field edge ''target'')"

definition spec_flow_valid :: "jsval \<Rightarrow> bool" where
  "spec_flow_valid v =
     (is_object v \<and> isArray (own_prop v ''nodes'') \<and> isArray (own_prop v ''edges'') \<and>
      list_all spec_node_ok (elements (own_prop v ''nodes'')) \<and>
      list_all spec_edge_ok (elements (own_prop v ''edges'')))"

text \<open>The index of the first element that is not in order, if there is one.\<close>

definition first_offender :: "(jsval \<Rightarrow> bool) \<Rightarrow> jsval list \<Rightarrow> nat option" where
  "first_offender ok xs = find (\<lambda>i. \<not> ok (xs ! i)) [0..<length xs]"

text \<open>
  The report on an offending node or edge at index \<open>i\<close>: the index and the fields
  required, or, for an element that is \<open>undefined\<close> or \<open>null\<close>, the message of the
  exception it raised.
\<close>

definition node_report :: "nat \<Rightarrow> jsval \<Rightarrow> string" where
  "node_report i node =
     (if nullish node then ''Validation error: '' @ err_message (cannot_read node ''id'')
      else if has_field node ''id'' \<and> has_field node ''type'' \<and> has_field node ''position''
        then node_invalid_position i
      else node_missing_fields i)"

definition edge_report :: "nat \<Rightarrow> jsval \<Rightarrow> string" where
  "edge_report i edge =
     (if nullish edge then ''Validation error: '' @ err_message (cannot_read edge ''id'')
      else edge_missing_fields i)"

subsection \<open>Sample flows and worlds\<close>

definition text_node :: "string \<Rightarrow> jsnum \<Rightarrow> jsnum \<Rightarrow> jsval" where
  "text_node ident x y =
     JObj [(''id'', JStr ident), (''type'', JStr ''textMessage''),
           (''position'', JObj [(''x'', JNum x), (''y'', JNum y)]),
           (''data'', JObj [(''text'', JStr ''hello'')])]"

definition link :: "string \<Rightarrow> string \<Rightarrow> string \<Rightarrow> jsval" where
  "link ident src tgt =
     JObj [(''source'', JStr src), (''sourceHandle'', JNull), (''target'', JStr tgt),
           (''targetHandle'', JNull), (''id'', JStr ident)]"

definition flow_of :: "jsval list \<Rightarrow> jsval list \<Rightarrow> jsval" where
  "flow_of ns es =
     JObj [(''nodes'', JArr ns), (''edges'', JArr es),
           (''metadata'', JObj [(''version'', JStr ''1.0.0'')])]"

text \<open>Two nodes and one edge; three nodes and two edges.\<close>

definition flow_small :: jsval where
  "flow_small =
     flow_of [text_node ''n1'' (Finite 0) (Finite 0), text_node ''n2'' (Finite 250) (Finite 15)]
       [link ''e1'' ''n1'' ''n2'']"

definition flow_large :: jsval where
  "flow_large =
     flow_of [text_node ''n1'' (Finite 0) (Finite 0), text_node ''n2'' (Finite 250) (Finite 15),
              text_node ''n3'' (Finite 500) (Finite 30)]
       [link ''e1'' ''n1'' ''n2'', link ''e2'' ''n2'' ''n3'']"

text \<open>A flow whose only node has the coordinate \<open>x = NaN\<close>.\<close>

definition flow_nan :: jsval where
  "flow_nan = flow_of [text_node ''n1'' NaN (Finite 0)] []"

text \<open>A flow whose node list holds \<open>null\<close>.\<close>

definition flow_null_node :: jsval where
  "flow_null_node = flow_of [JNull] []"

definition clock1 :: clock where
  "clock1 = \<lparr>backupCreatedAt_now = ''2024-01-01T10:00:00.000Z'',
             savedAt_now = ''2024-01-01T10:00:00.001Z'',
             lastModified_now = ''2024-01-01T10:00:00.002Z''\<rparr>"

definition clock2 :: clock where
  "clock2 = \<lparr>backupCreatedAt_now = ''2024-01-02T09:30:00.000Z'',
             savedAt_now = ''2024-01-02T09:30:00.001Z'',
             lastModified_now = ''2024-01-02T09:30:00.002Z''\<rparr>"

text \<open>A medium that accepts every write, with the given items.\<close>

definition world_with :: "(string \<times> jstring) list \<Rightarrow> world" where
  "world_with items =
     \<lparr>ls_items = map_of items, ls_reject = (\<lambda>key val. None), memoryStorage = Map.empty\<rparr>"

definition fresh_world :: world where
  "fresh_world = world_with []"

text \<open>Stored records that deserialize but are not flows, and worlds holding them.\<close>

definition invalid_current :: jsval where
  "invalid_current = JObj [(''nodes'', JStr ''oops''), (''edges'', JArr [])]"

definition invalid_backup :: jsval where
  "invalid_backup =
     JObj [(''backupCreatedAt'', JStr ''2024-01-01T10:00:00.000Z''), (''isBackup'', JBool True)]"


definition world_both_invalid :: world where
  "world_both_invalid =
     world_with [(CURRENT_FLOW, JsonText invalid_current),
                 (BACKUP_FLOW, JsonText invalid_backup)]"


definition world_saved_small :: world where
  "world_saved_small = world_with [(CURRENT_FLOW, JsonText flow_small)]"

text \<open>
  A flow with two offending nodes (indices 1 and 2) and an offending edge.
\<close>

definition flow_offenders :: jsval where
  "flow_offenders =
     flow_of [text_node ''n1'' (Finite 0) (Finite 0),
              JObj [(''id'', JStr ''n2''), (''type'', JStr ''textMessage'')],
              JObj [(''id'', JStr []), (''position'', JStr ''here'')]]
       [JObj [(''id'', JStr ''e1''), (''source'', JStr ''n1'')]]"

text \<open>The metadata-stamped form of \<open>flow_of ns es\<close>.\<close>

definition stamped :: "clock \<Rightarrow> jsval list \<Rightarrow> jsval list \<Rightarrow> jsval" where
  "stamped now ns es =
     JObj [(''nodes'', JArr ns), (''edges'', JArr es),
           (''metadata'',
            JObj [(''version'', JStr ''1.0.0''), (''savedAt'', JStr (savedAt_now now)),
                  (''nodeCount'', JNum (Finite (of_nat (length ns)))),
                  (''edgeCount'', JNum (Finite (of_nat (length es)))),
                  (''lastModified'', JStr (lastModified_now now))])]"

text \<open>
  A medium with no room for the backup copy: it refuses every write under the backup
  key with a quota error and accepts all others.
\<close>

definition world_no_room_for_backup :: world where
  "world_no_room_for_backup =
     \<lparr>ls_items = Map.empty,
      ls_reject = (\<lambda>key val. if key = BACKUP_FLOW
                     then Some (JsError ''QuotaExceededError'' ''The quota has been exceeded.'')
                     else None),
      memoryStorage = Map.empty\<rparr>"

section \<open>Auxiliary notions for the proofs\<close>

text \<open>The wrapper's write of a value under a key is accepted by the medium.\<close>

definition accepts :: "world \<Rightarrow> string \<Rightarrow> jstring \<Rightarrow> bool" where
  "accepts w key val = (available w \<longrightarrow> ls_reject w key val = None)"

text \<open>
  The world after the first step of \<open>saveCurrentFlow\<close>: the current flow has been read
  and, when that gave a result with data, copied to the backup slot.
\<close>

definition after_backup :: "clock \<Rightarrow> world \<Rightarrow> world" where
  "after_backup now w =
     (if success (fst (getCurrentFlow w)) \<and> truthy (res_data (fst (getCurrentFlow w)))
      then snd (createBackup (backupCreatedAt_now now) (res_data (fst (getCurrentFlow w)))
                 (probed w))
      else probed w)"

text \<open>
  Two worlds agree on what the medium refuses and on every item outside \<open>keys\<close>, in
  \<open>localStorage\<close> and in the fallback object.
\<close>

definition unchanged_except :: "string set \<Rightarrow> world \<Rightarrow> world \<Rightarrow> bool" where
  "unchanged_except keys w w' =
     (ls_reject w' = ls_reject w \<and>
      (\<forall>k. k \<notin> keys \<longrightarrow> ls_items w' k = ls_items w k \<and> memoryStorage w' k = memoryStorage w k))"

text \<open>What a validation loop started at index \<open>i\<close> returns, given the first offender.\<close>

definition loop_outcome ::
  "(nat \<Rightarrow> jsval \<Rightarrow> string) \<Rightarrow> nat \<Rightarrow> jsval list \<Rightarrow> nat option \<Rightarrow> js_error + validation option" where
  "loop_outcome report i xs off =
     (case off of
        None \<Rightarrow> Inr None
      | Some j \<Rightarrow>
          if nullish (xs ! j) then Inl (cannot_read (xs ! j) ''id'')
          else Inr (Some (invalid (report (i + j) (xs ! j)))))"

section \<open>Properties of the flow graph operations\<close>

lemmas sample_graph_defs =
  graphABC_def nodeA_def nodeB_def nodeC_def edgeAB_def edgeBC_def edgeAC_def connAB_def
  connAC_def

subsection \<open>The validator\<close>

lemma no_incoming_count_filter:
  "no_incoming_count st = length (nodesWithoutTargets st)"
  unfolding no_incoming_count_def nodesWithoutTargets_def
  by (simp add: length_filter_conv_card list_ex_iff)

text \<open>
  C1. A flow of at most one node always validates. A flow of two or more nodes is
  rejected exactly when at least two of its nodes are the target of no edge; nothing but
  this in-degree count is looked at.
\<close>

theorem validateFlow_in_degree_rule:
  "(length (nodes st) \<le> 1 \<longrightarrow> isValid (validateFlow st)) \<and>
   (2 \<le> length (nodes st) \<longrightarrow>
      (\<not> isValid (validateFlow st)) = (2 \<le> no_incoming_count st))"
  by (auto simp: validateFlow_def no_incoming_count_filter)

text \<open>
  The scenario of the specification: with the single edge \<open>A \<rightarrow> B\<close> both \<open>A\<close> and \<open>C\<close>
  lack an incoming edge and validation fails; adding \<open>B \<rightarrow> C\<close> makes it pass.
\<close>

theorem validateFlow_in_degree_rule_witness:
  "2 \<le> length (nodes (graphABC [edgeAB])) \<and>
   \<not> isValid (validateFlow (graphABC [edgeAB])) \<and>
   2 \<le> no_incoming_count (graphABC [edgeAB]) \<and>
   isValid (validateFlow (graphABC [edgeAB, edgeBC])) \<and>
   \<not> 2 \<le> no_incoming_count (graphABC [edgeAB, edgeBC]) \<and>
   length (nodes \<lparr>nodes = [nodeA], edges = []\<rparr>) \<le> 1 \<and>
   isValid (validateFlow \<lparr>nodes = [nodeA], edges = []\<rparr>)"
  using validateFlow_in_degree_rule [of "graphABC [edgeAB]"]
    validateFlow_in_degree_rule [of "graphABC [edgeAB, edgeBC]"]
    validateFlow_in_degree_rule [of "\<lparr>nodes = [nodeA], edges = []\<rparr>"]
  by (simp add: validateFlow_def nodesWithoutTargets_def sample_graph_defs)

subsection \<open>Deleting a node\<close>

text \<open>
  C7. Deleting a node id that is present removes every node of that id and every edge
  whose source or target is that id, so that no remaining edge refers to it; the other
  nodes and edges stay as they were, in their order.
\<close>

theorem deleteNode_removes_node_and_incident_edges:
  "nodeId \<in> node_id ` set (nodes st) \<Longrightarrow>
     nodeId \<notin> node_id ` set (nodes (deleteNode nodeId st)) \<and>
     (\<forall>e \<in> set (edges (deleteNode nodeId st)). source e \<noteq> nodeId \<and> target e \<noteq> nodeId) \<and>
     nodes (deleteNode nodeId st) = filter (\<lambda>n. node_id n \<noteq> nodeId) (nodes st) \<and>
     edges (deleteNode nodeId st)
       = filter (\<lambda>e. source e \<noteq> nodeId \<and> target e \<noteq> nodeId) (edges st) \<and>
     length (nodes (deleteNode nodeId st)) < length (nodes st)"
proof -
  assume present: "nodeId \<in> node_id ` set (nodes st)"
  have n: "nodes (deleteNode nodeId st) = filter (\<lambda>n. node_id n \<noteq> nodeId) (nodes st)"
    by (simp add: deleteNode_def setNodes_def setEdges_def)
  have e: "edges (deleteNode nodeId st)
             = filter (\<lambda>e. source e \<noteq> nodeId \<and> target e \<noteq> nodeId) (edges st)"
    by (simp add: deleteNode_def setNodes_def setEdges_def)
  from present obtain x where x: "x \<in> set (nodes st)" "node_id x = nodeId" by auto
  then have "length (filter (\<lambda>n. node_id n \<noteq> nodeId) (nodes st)) < length (nodes st)"
    by (intro length_filter_less[of x]) auto
  then show ?thesis unfolding n e by auto
qed

theorem deleteNode_removes_node_and_incident_edges_witness:
  "''B'' \<in> node_id ` set (nodes (graphABC [edgeAB, edgeBC, edgeAC])) \<and>
   nodes (deleteNode ''B'' (graphABC [edgeAB, edgeBC, edgeAC])) = [nodeA, nodeC] \<and>
   edges (deleteNode ''B'' (graphABC [edgeAB, edgeBC, edgeAC])) = [edgeAC]"
  using deleteNode_removes_node_and_incident_edges
          [of "''B''" "graphABC [edgeAB, edgeBC, edgeAC]"]
  by (simp add: sample_graph_defs)

subsection \<open>Connecting\<close>

lemma edges_graphABC: "edges (graphABC es) = es"
  by (simp add: graphABC_def)

lemma find_same_port_None:
  "find (\<lambda>edge. source edge = source conn \<and> sourceHandle edge = sourceHandle conn) es = None
   \<Longrightarrow> filter (\<lambda>e. \<not> same_port conn e) es = es"
  by (simp add: find_None_iff same_port_def filter_id_conv)

lemma filter_at_most_one:
  assumes "length (filter P xs) \<le> 1" "x \<in> set xs" "P x"
  shows "filter P xs = [x]"
proof (cases "filter P xs")
  case Nil
  have "x \<in> set (filter P xs)" using assms(2,3) by simp
  then show ?thesis unfolding Nil by simp
next
  case (Cons a as)
  have "x \<in> set (filter P xs)" using assms(2,3) by simp
  moreover have "as = []" using assms(1) unfolding Cons by simp
  ultimately show ?thesis unfolding Cons by simp
qed

lemma only_match:
  assumes "length (filter P xs) \<le> 1" "x \<in> set xs" "P x" "y \<in> set xs" "P y"
  shows "y = x"
proof -
  have "filter P xs = [x]" using assms(1-3) by (rule filter_at_most_one)
  moreover have "y \<in> set (filter P xs)" using assms(4,5) by simp
  ultimately show ?thesis by simp
qed

lemma filter_other_ids:
  assumes "distinct (map f xs)" "x \<in> set xs" "length (filter P xs) \<le> 1" "P x"
  shows "filter (\<lambda>y. f y \<noteq> f x) xs = filter (\<lambda>y. \<not> P y) xs"
proof (rule filter_cong[OF refl])
  fix y assume y: "y \<in> set xs"
  have "f y = f x \<longleftrightarrow> y = x"
    using assms(1,2) y by (auto simp: distinct_map inj_on_def)
  moreover have "P y \<longleftrightarrow> y = x"
    using only_match[OF assms(3) assms(2) assms(4) y] assms(4) by auto
  ultimately show "(f y \<noteq> f x) = (\<not> P y)" by simp
qed

text \<open>
  C2, as stated, fails on an edge list that already holds two edges of the port: only
  the first one found (and the edges sharing its id) is removed. Here \<open>A\<close> has the edges
  \<open>e1\<close> to \<open>B\<close> and \<open>e3\<close> to \<open>C\<close>; after connecting \<open>A\<close> to \<open>B\<close> again two edges leave the
  port, the old \<open>e3\<close> and the new one.
\<close>

theorem onConnect_two_edges_of_port_counterexample:
  "filter (same_port connAB)
     (edges (onConnect (appendEdge ''e4'') [edgeAB, edgeAC] connAB (graphABC [edgeAB, edgeAC])))
   = [edgeAC, \<lparr>source = ''A'', sourceHandle = HNull, target = ''B'', targetHandle = HNull,
               edge_id = ''e4''\<rparr>]"
  by (simp add: onConnect_def setEdges_def appendEdge_def same_port_def sample_graph_defs)

text \<open>
  C2, amended. When the edge list holds at most one edge of the connection's
  \<open>(source, sourceHandle)\<close> pair and its edge ids are pairwise distinct, and \<open>addEdge\<close>
  appends the new edge (which carries the connection's pair), then after \<open>onConnect\<close> the
  new edge is the only edge of that pair, it stands last, and the edges of every other
  pair are kept in their order.
\<close>

theorem onConnect_replaces_edge_of_port:
  assumes add: "\<forall>eds. addEdge conn eds = eds @ [newEdge]"
    and new: "same_port conn newEdge"
    and one: "length (filter (same_port conn) (edges st)) \<le> 1"
    and ids: "distinct (map edge_id (edges st))"
  shows "edges (onConnect addEdge (edges st) conn st)
           = filter (\<lambda>e. \<not> same_port conn e) (edges st) @ [newEdge]
       \<and> filter (same_port conn) (edges (onConnect addEdge (edges st) conn st)) = [newEdge]
       \<and> filter (\<lambda>e. \<not> same_port conn e) (edges (onConnect addEdge (edges st) conn st))
           = filter (\<lambda>e. \<not> same_port conn e) (edges st)
       \<and> nodes (onConnect addEdge (edges st) conn st) = nodes st"
proof -
  let ?P = "\<lambda>edge::edge. source edge = source conn \<and> sourceHandle edge = sourceHandle conn"
  have main: "edges (onConnect addEdge (edges st) conn st)
                = filter (\<lambda>e. \<not> same_port conn e) (edges st) @ [newEdge]"
  proof (cases "find ?P (edges st)")
    case None
    then show ?thesis
      using add find_same_port_None[OF None] by (simp add: onConnect_def setEdges_def)
  next
    case (Some ex)
    then have ex: "ex \<in> set (edges st)" "same_port conn ex"
      by (auto simp: find_Some_iff same_port_def)
    have "filter (\<lambda>edge. edge_id edge \<noteq> edge_id ex) (edges st)
            = filter (\<lambda>e. \<not> same_port conn e) (edges st)"
      using filter_other_ids[OF ids ex(1) one ex(2)] .
    then show ?thesis using add Some by (simp add: onConnect_def setEdges_def)
  qed
  have n: "nodes (onConnect addEdge (edges st) conn st) = nodes st"
    by (simp add: onConnect_def setEdges_def split: option.splits)
  show ?thesis using main new n by simp
qed

text \<open>
  Connecting \<open>A\<close> to \<open>C\<close> while \<open>A \<rightarrow> B\<close> exists replaces that edge; \<open>B \<rightarrow> C\<close> is kept.
\<close>

theorem onConnect_replaces_edge_of_port_witness:
  "(\<forall>eds. appendEdge ''e3'' connAC eds = eds @ [edgeAC]) \<and>
   same_port connAC edgeAC \<and>
   length (filter (same_port connAC) (edges (graphABC [edgeAB, edgeBC]))) \<le> 1 \<and>
   distinct (map edge_id (edges (graphABC [edgeAB, edgeBC]))) \<and>
   edges (onConnect (appendEdge ''e3'') [edgeAB, edgeBC] connAC (graphABC [edgeAB, edgeBC])) = [edgeBC, edgeAC] \<and>
   filter (same_port connAC)
     (edges (onConnect (appendEdge ''e3'') [edgeAB, edgeBC] connAC (graphABC [edgeAB, edgeBC]))) = [edgeAC]"
proof -
  have add: "\<forall>eds. appendEdge ''e3'' connAC eds = eds @ [edgeAC]"
    by (simp add: appendEdge_def sample_graph_defs)
  have new: "same_port connAC edgeAC"
    by (simp add: same_port_def sample_graph_defs)
  have one: "length (filter (same_port connAC) (edges (graphABC [edgeAB, edgeBC]))) \<le> 1"
    by (simp add: same_port_def sample_graph_defs)
  have ids: "distinct (map edge_id (edges (graphABC [edgeAB, edgeBC])))"
    by (simp add: sample_graph_defs)
  have not_port: "filter (\<lambda>e. \<not> same_port connAC e) [edgeAB, edgeBC] = [edgeBC]"
    by (simp add: same_port_def sample_graph_defs)
  note inst = onConnect_replaces_edge_of_port
    [of "appendEdge ''e3''" connAC edgeAC "graphABC [edgeAB, edgeBC]", OF add new one ids,
     unfolded edges_graphABC, unfolded not_port]
  have a: "edges (onConnect (appendEdge ''e3'') [edgeAB, edgeBC] connAC (graphABC [edgeAB, edgeBC]))
             = [edgeBC, edgeAC]"
    using inst[THEN conjunct1] by simp
  have b: "filter (same_port connAC)
             (edges (onConnect (appendEdge ''e3'') [edgeAB, edgeBC] connAC (graphABC [edgeAB, edgeBC]))) = [edgeAC]"
    using inst[THEN conjunct2, THEN conjunct1] .
  from add new one ids a b show ?thesis by blast
qed

section \<open>Lemmas on the storage manager\<close>

subsection \<open>The storage wrapper and the load operations\<close>

lemma isLocalStorageAvailable_eq:
  "isLocalStorageAvailable w = (available w, probed w)"
  by (simp add: isLocalStorageAvailable_def localStorage_setItem_def available_def probed_def
      localStorage_removeItem_def split: option.splits)

lemma storageWrapper_getItem_eq:
  "storageWrapper_getItem key w = (slot key w, probed w)"
  by (simp add: slot_def storageWrapper_getItem_def isLocalStorageAvailable_eq split: bool.splits)

lemma available_probed [simp]: "available (probed w) = available w"
  by (simp add: available_def probed_def localStorage_removeItem_def)

lemma ls_reject_probed [simp]: "ls_reject (probed w) = ls_reject w"
  by (simp add: probed_def localStorage_removeItem_def)

lemma memoryStorage_probed [simp]: "memoryStorage (probed w) = memoryStorage w"
  by (simp add: probed_def localStorage_removeItem_def)

lemma ls_items_probed:
  "ls_items (probed w) = (if available w then (ls_items w)(test_key := None) else ls_items w)"
  by (simp add: probed_def localStorage_removeItem_def)

lemma probed_probed [simp]: "probed (probed w) = probed w"
  by (simp add: probed_def localStorage_removeItem_def available_def)

lemma slot_probed [simp]: "slot key (probed w) = slot key w"
  by (simp add: slot_def storageWrapper_getItem_def isLocalStorageAvailable_eq
      localStorage_getItem_def ls_items_probed split: bool.splits)

lemma loadBackup_snd [simp]: "snd (loadBackup w) = probed w"
  by (simp add: loadBackup_def storageWrapper_getItem_eq if_text_def
      split: sum.splits option.splits)

lemma loadBackup_json:
  "slot BACKUP_FLOW w = Some (JsonText bak) \<Longrightarrow>
   fst (loadBackup w) = Success bak ''Backup loaded successfully'' None"
  by (simp add: loadBackup_def storageWrapper_getItem_eq if_text_def JSON_parse_def)


lemma getCurrentFlow_snd [simp]: "snd (getCurrentFlow w) = probed w"
  by (simp add: getCurrentFlow_def storageWrapper_getItem_eq Let_def if_text_def case_prod_beta
      split: sum.splits option.splits)

lemma slot_fresh: "slot key fresh_world = None"
  by (simp add: slot_def storageWrapper_getItem_def isLocalStorageAvailable_def
      localStorage_setItem_def localStorage_removeItem_def localStorage_getItem_def
      fresh_world_def world_with_def)

lemmas key_defs = CURRENT_FLOW_def BACKUP_FLOW_def test_key_def

lemma slot_world_with:
  "slot key (world_with items) = (if key = test_key then None else map_of items key)"
  by (simp add: slot_def storageWrapper_getItem_def isLocalStorageAvailable_def
      localStorage_setItem_def localStorage_removeItem_def localStorage_getItem_def
      world_with_def)

lemmas validate_defs =
  validateFlowData_def validateFlowData_try_def validate_node_def validate_edge_def
  prop_read_def nullish_def andThen_def invalid_def

lemma invalid_current_invalid: "validateFlowData invalid_current = invalid ''Nodes must be an array''"
  by (simp add: validate_defs invalid_current_def)

lemma invalid_backup_invalid: "validateFlowData invalid_backup = invalid ''Nodes must be an array''"
  by (simp add: validate_defs invalid_backup_def)

lemma flow_small_valid: "validateFlowData flow_small = \<lparr>isValid = True, error = None\<rparr>"
  by (simp add: validate_defs flow_small_def flow_of_def text_node_def link_def)

lemma flow_large_valid: "validateFlowData flow_large = \<lparr>isValid = True, error = None\<rparr>"
  by (simp add: validate_defs flow_large_def flow_of_def text_node_def link_def)

subsection \<open>Structural validation\<close>

lemma typeof_object_iff: "truthy v \<Longrightarrow> (typeof v = ''object'') = is_object v"
  by (cases v) auto

lemma typeof_number_iff: "(typeof v = ''number'') = numeric v"
  by (cases v) auto

lemma truthy_not_nullish: "truthy v \<Longrightarrow> \<not> nullish v"
  by (auto simp: nullish_def)

lemma validate_node_eq:
  "validate_node i node =
     (if nullish node then Inl (cannot_read node ''id'')
      else if spec_node_ok node then Inr None
      else Inr (Some (invalid (node_report i node))))"
  by (auto simp: validate_node_def prop_read_def andThen_def spec_node_ok_def has_field_def
      node_report_def typeof_object_iff typeof_number_iff truthy_not_nullish)

lemma validate_edge_eq:
  "validate_edge i edge =
     (if nullish edge then Inl (cannot_read edge ''id'')
      else if spec_edge_ok edge then Inr None
      else Inr (Some (invalid (edge_report i edge))))"
  by (auto simp: validate_edge_def prop_read_def andThen_def spec_edge_ok_def has_field_def
      edge_report_def)

lemma not_ok_nullish_node: "nullish v \<Longrightarrow> \<not> spec_node_ok v"
  by (simp add: spec_node_ok_def has_field_def)

lemma not_ok_nullish_edge: "nullish v \<Longrightarrow> \<not> spec_edge_ok v"
  by (simp add: spec_edge_ok_def has_field_def)

lemma first_offender_Nil [simp]: "first_offender ok [] = None"
  by (simp add: first_offender_def)

lemma find_map_list: "find P (map f xs) = map_option f (find (\<lambda>x. P (f x)) xs)"
  by (induction xs) auto

lemma first_offender_Cons:
  "first_offender ok (x # xs) = (if ok x then map_option Suc (first_offender ok xs) else Some 0)"
proof -
  have "[0..<length (x # xs)] = 0 # map Suc [0..<length xs]"
    by (simp add: upt_conv_Cons map_Suc_upt del: upt_Suc)
  then show ?thesis
    by (simp add: first_offender_def find_map_list del: upt_Suc)
qed

lemma first_offender_None_iff: "first_offender ok xs = None \<longleftrightarrow> list_all ok xs"
  by (induction xs) (auto simp: first_offender_Cons)

lemma validate_nodes_eq:
  "validate_nodes i ns = loop_outcome node_report i ns (first_offender spec_node_ok ns)"
proof (induction ns arbitrary: i)
  case Nil
  show ?case by (simp add: loop_outcome_def)
next
  case (Cons n ns)
  show ?case
    by (cases "first_offender spec_node_ok ns")
       (auto simp: validate_node_eq Cons first_offender_Cons loop_outcome_def
          not_ok_nullish_node)
qed

lemma validate_edges_eq:
  "validate_edges i es = loop_outcome edge_report i es (first_offender spec_edge_ok es)"
proof (induction es arbitrary: i)
  case Nil
  show ?case by (simp add: loop_outcome_def)
next
  case (Cons e es)
  show ?case
    by (cases "first_offender spec_edge_ok es")
       (auto simp: validate_edge_eq Cons first_offender_Cons loop_outcome_def
          not_ok_nullish_edge)
qed

lemma is_object_iff: "is_object v = (truthy v \<and> typeof v = ''object'')"
  by (cases v) auto

lemma is_object_not_nullish: "is_object v \<Longrightarrow> \<not> nullish v"
  by (cases v) (auto simp: nullish_def)

lemma validateFlowData_eq:
  "validateFlowData v =
     (if \<not> is_object v then invalid ''Flow data must be a valid object''
      else if \<not> isArray (own_prop v ''nodes'') then invalid ''Nodes must be an array''
      else if \<not> isArray (own_prop v ''edges'') then invalid ''Edges must be an array''
      else case first_offender spec_node_ok (elements (own_prop v ''nodes'')) of
             Some i \<Rightarrow> invalid (node_report i (elements (own_prop v ''nodes'') ! i))
           | None \<Rightarrow>
               (case first_offender spec_edge_ok (elements (own_prop v ''edges'')) of
                  Some j \<Rightarrow> invalid (edge_report j (elements (own_prop v ''edges'') ! j))
                | None \<Rightarrow> \<lparr>isValid = True, error = None\<rparr>))"
proof (cases "is_object v")
  case False
  then show ?thesis
    by (auto simp: validateFlowData_def validateFlowData_try_def is_object_iff)
next
  case True
  then have "truthy v" "typeof v = ''object''" "\<not> nullish v"
    by (auto simp: is_object_iff is_object_not_nullish)
  then show ?thesis using True
    by (auto simp: validateFlowData_def validateFlowData_try_def prop_read_def andThen_def
        validate_nodes_eq validate_edges_eq loop_outcome_def node_report_def edge_report_def
        split: option.splits)
qed

lemma validateFlowData_error:
  "error (validateFlowData v) = None \<longleftrightarrow> isValid (validateFlowData v)"
  by (simp add: validateFlowData_eq invalid_def split: option.splits)

subsection \<open>Saving\<close>

lemma keys_distinct [simp]:
  "CURRENT_FLOW \<noteq> BACKUP_FLOW" "BACKUP_FLOW \<noteq> CURRENT_FLOW"
  "CURRENT_FLOW \<noteq> test_key" "test_key \<noteq> CURRENT_FLOW"
  "BACKUP_FLOW \<noteq> test_key" "test_key \<noteq> BACKUP_FLOW"
  by (simp_all add: key_defs)

lemma slot_eq:
  "slot key w =
     (if available w then (if key = test_key then None else ls_items w key)
      else (case memoryStorage w key of
              Some t \<Rightarrow> if t = OtherText [] then None else Some t
            | None \<Rightarrow> None))"
  by (simp add: slot_def storageWrapper_getItem_def isLocalStorageAvailable_eq
      localStorage_getItem_def ls_items_probed split: bool.splits)

lemma available_update [simp]:
  "available (w\<lparr>ls_items := x\<rparr>) = available w"
  "available (w\<lparr>memoryStorage := y\<rparr>) = available w"
  by (simp_all add: available_def)

lemma probed_unavailable: "\<not> available w \<Longrightarrow> probed w = w"
  by (simp add: probed_def)

lemma storageWrapper_setItem_eq:
  "storageWrapper_setItem key val w =
     (if available w then
        (case ls_reject w key val of
           Some e \<Rightarrow> (Inl e, probed w)
         | None \<Rightarrow> (Inr (), (probed w)\<lparr>ls_items := (ls_items (probed w))(key \<mapsto> val)\<rparr>))
      else (Inr (), w\<lparr>memoryStorage := (memoryStorage w)(key \<mapsto> val)\<rparr>))"
  by (simp add: storageWrapper_setItem_def isLocalStorageAvailable_eq localStorage_setItem_def
      probed_unavailable split: bool.splits option.splits)

lemma setItem_fst_eq:
  "fst (storageWrapper_setItem key val w) =
     (if available w then (case ls_reject w key val of Some e \<Rightarrow> Inl e | None \<Rightarrow> Inr ())
      else Inr ())"
  by (simp add: storageWrapper_setItem_eq split: option.splits)

lemma setItem_snd_rejected:
  "available w \<Longrightarrow> ls_reject w key val = Some e \<Longrightarrow>
   snd (storageWrapper_setItem key val w) = probed w"
  by (simp add: storageWrapper_setItem_eq)

lemma setItem_fst: "fst (storageWrapper_setItem key val w) = Inr () \<longleftrightarrow> accepts w key val"
  by (auto simp: storageWrapper_setItem_eq accepts_def split: option.splits)

lemma setItem_available [simp]:
  "available (snd (storageWrapper_setItem key val w)) = available w"
  by (simp add: storageWrapper_setItem_eq split: option.splits)

lemma setItem_reject [simp]:
  "ls_reject (snd (storageWrapper_setItem key val w)) = ls_reject w"
  by (simp add: storageWrapper_setItem_eq split: option.splits)

lemma setItem_slot_other:
  "k \<noteq> key \<Longrightarrow> slot k (snd (storageWrapper_setItem key val w)) = slot k w"
  by (auto simp: storageWrapper_setItem_eq slot_eq ls_items_probed split: option.splits)

lemma setItem_slot_same:
  "key \<noteq> test_key \<Longrightarrow>
   slot key (snd (storageWrapper_setItem key (JsonText v) w))
     = (if accepts w key (JsonText v) then Some (JsonText v) else slot key w)"
  by (auto simp: storageWrapper_setItem_eq slot_eq ls_items_probed accepts_def
      split: option.splits)

lemma accepts_probed [simp]: "accepts (probed w) = accepts w"
  by (simp add: accepts_def fun_eq_iff)

lemma accepts_setItem [simp]:
  "accepts (snd (storageWrapper_setItem key val w)) = accepts w"
  by (simp add: accepts_def fun_eq_iff)

lemma createBackup_snd:
  "snd (createBackup t d w) = snd (storageWrapper_setItem BACKUP_FLOW (JSON_stringify (backupData t d)) w)"
  by (simp add: createBackup_def split: prod.splits sum.splits)

lemma after_backup_available [simp]: "available (after_backup now w) = available w"
  by (simp add: after_backup_def createBackup_snd)

lemma after_backup_accepts [simp]: "accepts (after_backup now w) = accepts w"
  by (simp add: after_backup_def createBackup_snd)

lemma after_backup_current [simp]:
  "slot CURRENT_FLOW (after_backup now w) = slot CURRENT_FLOW w"
  by (simp add: after_backup_def createBackup_snd setItem_slot_other)

lemma after_backup_backup:
  "slot BACKUP_FLOW (after_backup now w) =
     (if success (fst (getCurrentFlow w)) \<and> truthy (res_data (fst (getCurrentFlow w))) \<and>
         accepts w BACKUP_FLOW
           (JSON_stringify (backupData (backupCreatedAt_now now) (res_data (fst (getCurrentFlow w)))))
      then Some (JSON_stringify
                   (backupData (backupCreatedAt_now now) (res_data (fst (getCurrentFlow w)))))
      else slot BACKUP_FLOW w)"
  by (simp add: after_backup_def createBackup_snd JSON_stringify_def setItem_slot_same)

text \<open>The save, from the world after the backup step on.\<close>

lemma saveCurrentFlow_eq:
  "saveCurrentFlow now flowData w =
     (let w2 = after_backup now w in
      case enhance now flowData of
        Inl e \<Rightarrow> (saveCurrentFlow_catch e, w2)
      | Inr enhanced \<Rightarrow>
          if \<not> isValid (validateFlowData enhanced) then
            (Failure (''Flow validation failed: '' @
                        (case error (validateFlowData enhanced) of Some m \<Rightarrow> m | None \<Rightarrow> ''null''))
               ''VALIDATION_ERROR'' None None, w2)
          else if \<not> available w then
            (Failure
               ''Local storage is not available in your browser. Changes will be lost when you close the tab.''
               ''STORAGE_NOT_SUPPORTED'' None None, probed w2)
          else (case ls_reject w CURRENT_FLOW (JSON_stringify enhanced) of
                  Some e \<Rightarrow> (saveCurrentFlow_catch e, probed w2)
                | None \<Rightarrow>
                    (Success enhanced ''Flow saved successfully'' None,
                     probed (snd (storageWrapper_setItem CURRENT_FLOW (JSON_stringify enhanced)
                                    (probed w2))))))"
proof -
  have ab: "(if success (fst (getCurrentFlow w)) \<and> truthy (res_data (fst (getCurrentFlow w)))
             then snd (createBackup (backupCreatedAt_now now) (res_data (fst (getCurrentFlow w)))
                        (snd (getCurrentFlow w)))
             else snd (getCurrentFlow w)) = after_backup now w"
    by (simp add: after_backup_def)
  have rej: "ls_reject (after_backup now w) = ls_reject w"
    by (simp add: after_backup_def createBackup_snd)
  show ?thesis
    unfolding saveCurrentFlow_def case_prod_beta Let_def ab
    by (simp add: isLocalStorageAvailable_eq storageWrapper_getItem_eq rej
        setItem_slot_same accepts_def JSON_stringify_def if_text_def
        setItem_fst_eq setItem_snd_rejected
        split: sum.splits option.splits)
qed

lemma after_backup_reject [simp]: "ls_reject (after_backup now w) = ls_reject w"
  by (simp add: after_backup_def createBackup_snd)

lemma after_backup_unchanged:
  "unchanged_except {BACKUP_FLOW, test_key} w (after_backup now w)"
  by (auto simp: unchanged_except_def after_backup_def createBackup_snd storageWrapper_setItem_eq
      ls_items_probed split: option.splits)

lemma saveCurrentFlow_success_iff:
  "success (fst (saveCurrentFlow now flowData w)) \<longleftrightarrow>
     (\<exists>enhanced. enhance now flowData = Inr enhanced \<and> isValid (validateFlowData enhanced) \<and>
        available w \<and> ls_reject w CURRENT_FLOW (JSON_stringify enhanced) = None)"
  by (auto simp: saveCurrentFlow_eq Let_def saveCurrentFlow_catch_def
      split: sum.splits option.splits)

lemma saveCurrentFlow_success_data:
  "success (fst (saveCurrentFlow now flowData w)) \<Longrightarrow>
     enhance now flowData = Inr (res_data (fst (saveCurrentFlow now flowData w))) \<and>
     fst (saveCurrentFlow now flowData w)
       = Success (res_data (fst (saveCurrentFlow now flowData w))) ''Flow saved successfully'' None"
  by (auto simp: saveCurrentFlow_eq Let_def saveCurrentFlow_catch_def
      split: sum.splits option.splits if_splits)

lemma saveCurrentFlow_reject [simp]:
  "ls_reject (snd (saveCurrentFlow now flowData w)) = ls_reject w"
  by (simp add: saveCurrentFlow_eq Let_def split: sum.splits option.splits)

lemma saveCurrentFlow_available [simp]:
  "available (snd (saveCurrentFlow now flowData w)) = available w"
  by (simp add: available_def)

lemma saveCurrentFlow_accepts [simp]:
  "accepts (snd (saveCurrentFlow now flowData w)) = accepts w"
  by (simp add: accepts_def fun_eq_iff)

lemma saveCurrentFlow_current_slot:
  "slot CURRENT_FLOW (snd (saveCurrentFlow now flowData w)) =
     (if success (fst (saveCurrentFlow now flowData w))
      then Some (JSON_stringify (res_data (fst (saveCurrentFlow now flowData w))))
      else slot CURRENT_FLOW w)"
  by (simp add: saveCurrentFlow_eq Let_def saveCurrentFlow_catch_def setItem_slot_same
      accepts_def JSON_stringify_def split: sum.splits option.splits)

lemma saveCurrentFlow_backup_slot:
  "slot BACKUP_FLOW (snd (saveCurrentFlow now flowData w)) = slot BACKUP_FLOW (after_backup now w)"
  by (simp add: saveCurrentFlow_eq Let_def setItem_slot_other
      split: sum.splits option.splits)

lemma getCurrentFlow_valid:
  "slot CURRENT_FLOW w = Some (JsonText v) \<Longrightarrow> isValid (validateFlowData v) \<Longrightarrow>
   fst (getCurrentFlow w) = Success v ''Flow loaded successfully'' None"
  by (simp add: getCurrentFlow_def storageWrapper_getItem_eq if_text_def JSON_parse_def Let_def)

lemma enhance_defined:
  "\<not> nullish flowData \<Longrightarrow> \<exists>enhanced. enhance now flowData = Inr enhanced"
  by (simp add: enhance_def prop_read_def andThen_def)

lemma enhance_nullish:
  "nullish flowData \<Longrightarrow> enhance now flowData = Inl (cannot_read flowData ''metadata'')"
  by (simp add: enhance_def prop_read_def andThen_def)

text \<open>For \<open>null\<close> the stamped form is never built: the save ends in its \<open>catch\<close> block.\<close>

lemma saveCurrentFlow_null:
  "fst (saveCurrentFlow now JNull w) =
     Failure ''Failed to save flow due to an unknown error'' ''UNKNOWN_ERROR''
       (Some (err_message (cannot_read JNull ''metadata'')))
       (Some (cannot_read JNull ''metadata''))"
  by (simp add: saveCurrentFlow_eq enhance_nullish nullish_def saveCurrentFlow_catch_def
      cannot_read_def)

lemma valid_is_object:
  "isValid (validateFlowData v) \<Longrightarrow>
   is_object v \<and> isArray (own_prop v ''nodes'') \<and> isArray (own_prop v ''edges'')"
  by (simp add: validateFlowData_eq invalid_def split: if_splits)

lemma invalid_has_error:
  "\<not> isValid (validateFlowData v) \<Longrightarrow> \<exists>reason. error (validateFlowData v) = Some reason"
  using validateFlowData_error [of v] by auto

subsection \<open>JSON text of a flow\<close>

lemma is_json_fixed:
  shows "is_json v \<Longrightarrow> json_value v = v"
    and "are_json xs \<Longrightarrow> json_elems xs = xs"
    and "props_json kvs \<Longrightarrow> json_props kvs = kvs"
  by (induction v and xs and kvs rule: json_value_json_elems_json_props.induct) auto

lemma json_value_is_json:
  shows "v \<noteq> JUndefined \<Longrightarrow> is_json (json_value v)"
    and "are_json (json_elems xs)"
    and "props_json (json_props kvs)"
  by (induction v and xs and kvs rule: json_value_json_elems_json_props.induct) auto

lemma json_props_lookup:
  "map_of kvs key = Some v \<Longrightarrow> v \<noteq> JUndefined \<Longrightarrow>
   map_of (json_props kvs) key = Some (json_value v)"
  by (induction kvs) (auto split: if_splits)

lemma json_props_lookup_is_json:
  assumes "is_json (own_prop (JObj kvs) key)"
  shows "own_prop (JObj (json_props kvs)) key = own_prop (JObj kvs) key"
proof (cases "map_of kvs key")
  case None
  then show ?thesis using assms by simp
next
  case (Some v)
  then have j: "is_json v" using assms by simp
  then have "v \<noteq> JUndefined" by auto
  then have "map_of (json_props kvs) key = Some (json_value v)"
    using Some by (simp add: json_props_lookup)
  then show ?thesis using Some j by (simp add: is_json_fixed)
qed

lemma props_json_update:
  "props_json kvs \<Longrightarrow> is_json v \<Longrightarrow> props_json (AList.update key v kvs)"
  by (induction kvs) auto

lemma digit_char_digit: "d < 10 \<Longrightarrow> digit_char d \<in> set ''0123456789''"
  unfolding digit_char_def by (rule nth_mem) simp

lemma string_of_nat_digits: "set (string_of_nat n) \<subseteq> set ''0123456789''"
proof (induction n rule: string_of_nat.induct)
  case (1 n)
  show ?case
  proof (cases "n < 10")
    case True
    then show ?thesis using digit_char_digit [of n] by (subst string_of_nat.simps) simp
  next
    case False
    have "n mod 10 < 10" by simp
    then have "digit_char (n mod 10) \<in> set ''0123456789''" by (rule digit_char_digit)
    then show ?thesis using False 1 by (subst string_of_nat.simps) simp
  qed
qed

lemma not_an_index:
  assumes "c \<in> set key" "c \<notin> set ''0123456789''"
  shows "index_key n key = None"
proof -
  have "string_of_nat i \<noteq> key" for i
    using string_of_nat_digits [of i] assms by auto
  then show ?thesis by (simp add: index_key_def find_None_iff)
qed

lemma spread_lookup:
  assumes "c \<in> set key" "c \<notin> set ''0123456789''"
  shows "map_of (spread v) key = (case v of JObj kvs \<Rightarrow> map_of kvs key | _ \<Rightarrow> None)"
proof -
  have ne: "string_of_nat i \<noteq> key" for i
    using string_of_nat_digits [of i] assms by auto
  have "map_of (zip (map string_of_nat is) ys) key = None" for "is" and ys :: "jsval list"
    using ne by (induction "is" arbitrary: ys) (auto simp: zip_Cons1 split: list.splits)
  then show ?thesis by (cases v) auto
qed

lemma nodes_key: "CHR ''n'' \<in> set ''nodes''" "CHR ''n'' \<notin> set ''0123456789''"
  by simp_all

lemma edges_key: "CHR ''e'' \<in> set ''edges''" "CHR ''e'' \<notin> set ''0123456789''"
  by simp_all

text \<open>A structurally valid value is a record, not an array.\<close>

lemma valid_is_record:
  assumes "isValid (validateFlowData v)"
  shows "\<exists>props. v = JObj props"
proof (cases v)
  case (JArr xs)
  have "own_prop v ''nodes'' = JUndefined"
    using not_an_index [OF nodes_key] by (simp add: JArr)
  then show ?thesis using valid_is_object [OF assms] by simp
qed (use valid_is_object [OF assms] in simp_all)

lemma enhance_object:
  "enhance now flowData = Inr enhanced \<Longrightarrow>
   \<exists>v_metadata. enhanced = JObj (set_prop ''metadata'' v_metadata (spread flowData))"
  by (auto simp: enhance_def andThen_def prop_read_def split: if_splits)

lemma enhanced_prop:
  assumes "enhance now flowData = Inr enhanced" "key \<noteq> ''metadata''"
    and "c \<in> set key" "c \<notin> set ''0123456789''"
  shows "own_prop enhanced key
           = (case flowData of JObj kvs \<Rightarrow> own_prop flowData key | _ \<Rightarrow> JUndefined)"
proof -
  obtain m where m: "enhanced = JObj (set_prop ''metadata'' m (spread flowData))"
    using enhance_object [OF assms(1)] by blast
  have "map_of (set_prop ''metadata'' m (spread flowData)) key = map_of (spread flowData) key"
    using assms(2) by (simp add: set_prop_def update_conv')
  then have "own_prop enhanced key
               = (case map_of (spread flowData) key of Some v \<Rightarrow> v | None \<Rightarrow> JUndefined)"
    unfolding m by simp
  also have "\<dots> = (case flowData of JObj kvs \<Rightarrow> own_prop flowData key | _ \<Rightarrow> JUndefined)"
    unfolding spread_lookup [OF assms(3,4)] by (cases flowData) simp_all
  finally show ?thesis .
qed

lemma validateFlowData_cong:
  assumes "is_object v = is_object v'"
    and "own_prop v ''nodes'' = own_prop v' ''nodes''"
    and "own_prop v ''edges'' = own_prop v' ''edges''"
  shows "validateFlowData v = validateFlowData v'"
  unfolding validateFlowData_eq assms ..

lemma valid_enhanced:
  assumes e: "enhance now flowData = Inr enhanced" and v: "isValid (validateFlowData enhanced)"
  shows "is_object enhanced \<and>
         own_prop enhanced ''nodes'' = own_prop flowData ''nodes'' \<and>
         own_prop enhanced ''edges'' = own_prop flowData ''edges''"
proof -
  have arr: "is_object enhanced" "isArray (own_prop enhanced ''nodes'')"
    using valid_is_object [OF v] by simp_all
  have n: "own_prop enhanced ''nodes''
             = (case flowData of JObj kvs \<Rightarrow> own_prop flowData ''nodes'' | _ \<Rightarrow> JUndefined)"
    by (rule enhanced_prop [OF e _ nodes_key]) simp
  have ed: "own_prop enhanced ''edges''
             = (case flowData of JObj kvs \<Rightarrow> own_prop flowData ''edges'' | _ \<Rightarrow> JUndefined)"
    by (rule enhanced_prop [OF e _ edges_key]) simp
  from arr(2) n obtain kvs where "flowData = JObj kvs"
    by (cases flowData) auto
  then show ?thesis using arr(1) n ed by simp
qed

lemma valid_enhanced_flow:
  assumes e: "enhance now flowData = Inr enhanced" and v: "isValid (validateFlowData enhanced)"
  shows "validateFlowData flowData = validateFlowData enhanced"
proof (rule validateFlowData_cong)
  note ve = valid_enhanced [OF e v]
  have n: "own_prop enhanced ''nodes''
             = (case flowData of JObj kvs \<Rightarrow> own_prop flowData ''nodes'' | _ \<Rightarrow> JUndefined)"
    by (rule enhanced_prop [OF e _ nodes_key]) simp
  have "isArray (own_prop enhanced ''nodes'')" using valid_is_object [OF v] by simp
  with n obtain kvs where "flowData = JObj kvs" by (cases flowData) auto
  then show "is_object flowData = is_object enhanced" using ve by simp
  show "own_prop flowData ''nodes'' = own_prop enhanced ''nodes''" using ve by simp
  show "own_prop flowData ''edges'' = own_prop enhanced ''edges''" using ve by simp
qed

text \<open>The record read back from the JSON text of an enhanced flow.\<close>

lemma stored_enhanced:
  assumes e: "enhance now flowData = Inr enhanced" and v: "isValid (validateFlowData enhanced)"
    and jn: "is_json (own_prop flowData ''nodes'')" and je: "is_json (own_prop flowData ''edges'')"
  shows "isValid (validateFlowData (json_value enhanced))"
    and "own_prop (json_value enhanced) ''nodes'' = own_prop flowData ''nodes''"
    and "own_prop (json_value enhanced) ''edges'' = own_prop flowData ''edges''"
    and "is_json (json_value enhanced)"
    and "\<exists>props. json_value enhanced = JObj props \<and> props_json props"
proof -
  obtain props where p: "enhanced = JObj props"
    using enhance_object [OF e] by blast
  note ve = valid_enhanced [OF e v]
  have n: "own_prop (json_value enhanced) ''nodes'' = own_prop enhanced ''nodes''"
    unfolding p json_value.simps
    by (rule json_props_lookup_is_json) (use ve jn p in simp)
  have ed: "own_prop (json_value enhanced) ''edges'' = own_prop enhanced ''edges''"
    unfolding p json_value.simps
    by (rule json_props_lookup_is_json) (use ve je p in simp)
  show "own_prop (json_value enhanced) ''nodes'' = own_prop flowData ''nodes''"
    using n ve by simp
  show "own_prop (json_value enhanced) ''edges'' = own_prop flowData ''edges''"
    using ed ve by simp
  have "is_object (json_value enhanced) = is_object enhanced" by (simp add: p)
  then have "validateFlowData (json_value enhanced) = validateFlowData enhanced"
    using n ed by (rule validateFlowData_cong)
  then show "isValid (validateFlowData (json_value enhanced))" using v by simp
  show "is_json (json_value enhanced)" by (simp add: p json_value_is_json)
  show "\<exists>props. json_value enhanced = JObj props \<and> props_json props"
    by (simp add: p json_value_is_json)
qed

lemma backupData_is_json:
  assumes "props_json props"
  shows "is_json (backupData t (JObj props))"
  using assms by (simp add: backupData_def set_prop_def props_json_update)

lemma backupData_prop:
  assumes "key \<noteq> ''isBackup''" "key \<noteq> ''backupCreatedAt''"
  shows "own_prop (backupData t (JObj props)) key = own_prop (JObj props) key"
  using assms by (simp add: backupData_def set_prop_def update_conv')

lemma backupData_tags:
  "own_prop (backupData t v) ''isBackup'' = JBool True"
  "own_prop (backupData t v) ''backupCreatedAt'' = JStr t"
  by (simp_all add: backupData_def set_prop_def update_conv')

subsection \<open>Recovery on load\<close>

lemma getCurrentFlow_invalid:
  "slot CURRENT_FLOW w = Some (JsonText cur) \<Longrightarrow> \<not> isValid (validateFlowData cur) \<Longrightarrow>
   fst (getCurrentFlow w) =
     (if success (fst (loadBackup (probed w)))
      then Success (res_data (fst (loadBackup (probed w))))
             ''Loaded from backup due to corrupted primary data''
             (Some ''Primary flow data was corrupted'')
      else Failure (''Invalid flow data: '' @
                      (case error (validateFlowData cur) of Some m \<Rightarrow> m | None \<Rightarrow> ''null''))
             ''INVALID_DATA'' None None)"
  by (simp add: getCurrentFlow_def storageWrapper_getItem_eq if_text_def JSON_parse_def Let_def
      case_prod_beta)


lemma loadBackup_none:
  "slot BACKUP_FLOW w = None \<Longrightarrow>
   fst (loadBackup w) = Failure ''No backup available'' ''NO_BACKUP'' None None"
  by (simp add: loadBackup_def storageWrapper_getItem_eq if_text_def)

lemma getCurrentFlow_none:
  "slot CURRENT_FLOW w = None \<Longrightarrow>
   fst (getCurrentFlow w) = Success JNull ''No saved flow found'' None"
  by (simp add: getCurrentFlow_def storageWrapper_getItem_eq if_text_def)



subsection \<open>The sample flows\<close>

lemmas flow_defs = flow_of_def text_node_def link_def

lemma string_of_nat_small:
  "string_of_nat 0 = ''0''" "string_of_nat (Suc 0) = ''1''"
  by (simp_all add: string_of_nat.simps [of 0] string_of_nat.simps [of "Suc 0"] digit_char_def)

lemma enhance_flow_of: "enhance now (flow_of ns es) = Inr (stamped now ns es)"
  by (simp add: enhance_def andThen_def prop_read_def nullish_def flow_of_def stamped_def
      set_prop_def opt_chain_def js_or_def STORAGE_VERSION_def)

lemma stamped_valid:
  "validateFlowData (stamped now ns es) = validateFlowData (flow_of ns es)"
  by (rule validateFlowData_cong) (simp_all add: stamped_def flow_of_def)

lemma world_with_medium [simp]:
  "available (world_with items)" "ls_reject (world_with items) key val = None"
  "accepts (world_with items) key val"
  by (simp_all add: available_def accepts_def world_with_def)

lemma save_flow_of_world_with:
  "isValid (validateFlowData (flow_of ns es)) \<Longrightarrow> available w \<Longrightarrow>
   ls_reject w CURRENT_FLOW (JSON_stringify (stamped now ns es)) = None \<Longrightarrow>
   fst (saveCurrentFlow now (flow_of ns es) w)
     = Success (stamped now ns es) ''Flow saved successfully'' None"
  by (simp add: saveCurrentFlow_eq enhance_flow_of stamped_valid)

lemma flow_nan_valid: "isValid (validateFlowData flow_nan)"
  by (simp add: validate_defs flow_nan_def flow_defs)

lemma flow_null_node_invalid: "\<not> isValid (validateFlowData flow_null_node)"
  by (simp add: validate_defs flow_null_node_def flow_defs)

lemma slot_world_saved_small:
  "slot CURRENT_FLOW world_saved_small = Some (JsonText flow_small)"
  "slot BACKUP_FLOW world_saved_small = None"
  by (simp_all add: world_saved_small_def slot_world_with key_defs)

text \<open>Saving the flow with the \<open>NaN\<close> coordinate on an empty medium.\<close>

lemma save_nan:
  "fst (saveCurrentFlow clock1 flow_nan fresh_world)
     = Success (stamped clock1 [text_node ''n1'' NaN (Finite 0)] []) ''Flow saved successfully'' None"
  unfolding flow_nan_def fresh_world_def
  by (rule save_flow_of_world_with) (use flow_nan_valid in \<open>simp_all add: flow_nan_def\<close>)

lemma stored_nan_invalid:
  "validateFlowData (json_value (stamped clock1 [text_node ''n1'' NaN (Finite 0)] []))
     = invalid ''Node at index 0 has invalid position data''"
  by (simp add: validate_defs stamped_def text_node_def node_invalid_position_def
      string_of_nat_small)

lemma after_save_nan:
  "slot CURRENT_FLOW (snd (saveCurrentFlow clock1 flow_nan fresh_world))
     = Some (JsonText (json_value (stamped clock1 [text_node ''n1'' NaN (Finite 0)] [])))"
  "slot BACKUP_FLOW (snd (saveCurrentFlow clock1 flow_nan fresh_world)) = None"
  by (simp_all add: saveCurrentFlow_current_slot saveCurrentFlow_backup_slot after_backup_backup
      save_nan JSON_stringify_def getCurrentFlow_none slot_fresh)

lemma load_after_save_nan:
  "fst (getCurrentFlow (snd (saveCurrentFlow clock1 flow_nan fresh_world)))
     = Failure ''Invalid flow data: Node at index 0 has invalid position data''
         ''INVALID_DATA'' None None"
proof -
  let ?w = "snd (saveCurrentFlow clock1 flow_nan fresh_world)"
  have "\<not> success (fst (loadBackup (probed ?w)))"
    by (simp add: loadBackup_none after_save_nan)
  then show ?thesis
    using getCurrentFlow_invalid [OF after_save_nan(1)]
    by (simp add: stored_nan_invalid invalid_def)
qed

lemma save_small_fresh:
  "fst (saveCurrentFlow clock1 flow_small fresh_world)
     = Success (stamped clock1
                  [text_node ''n1'' (Finite 0) (Finite 0), text_node ''n2'' (Finite 250) (Finite 15)]
                  [link ''e1'' ''n1'' ''n2''])
         ''Flow saved successfully'' None"
  unfolding flow_small_def fresh_world_def
  by (rule save_flow_of_world_with) (use flow_small_valid in \<open>simp_all add: flow_small_def\<close>)

lemma flow_small_json:
  "is_json (own_prop flow_small ''nodes'')" "is_json (own_prop flow_small ''edges'')"
  by (simp_all add: flow_small_def flow_defs)

lemma flow_small_is_json: "is_json flow_small"
  by (simp add: flow_small_def flow_defs)

lemma flow_small_parts:
  "own_prop flow_small ''nodes''
     = JArr [text_node ''n1'' (Finite 0) (Finite 0), text_node ''n2'' (Finite 250) (Finite 15)]"
  "own_prop flow_small ''edges'' = JArr [link ''e1'' ''n1'' ''n2'']"
  by (simp_all add: flow_small_def flow_of_def)

lemma fresh_world_medium [simp]:
  "available fresh_world" "ls_reject fresh_world key val = None"
  "accepts fresh_world key val"
  by (simp_all add: fresh_world_def)

lemma save_small_after_nan:
  "fst (saveCurrentFlow clock2 flow_small (snd (saveCurrentFlow clock1 flow_nan fresh_world)))
     = Success (stamped clock2
                  [text_node ''n1'' (Finite 0) (Finite 0), text_node ''n2'' (Finite 250) (Finite 15)]
                  [link ''e1'' ''n1'' ''n2''])
         ''Flow saved successfully'' None"
  unfolding flow_small_def
  by (rule save_flow_of_world_with) (use flow_small_valid in \<open>simp_all add: flow_small_def\<close>)

lemma save_large_after_small:
  "success (fst (saveCurrentFlow clock2 flow_large
                   (snd (saveCurrentFlow clock1 flow_small fresh_world))))"
proof -
  have "fst (saveCurrentFlow clock2 flow_large (snd (saveCurrentFlow clock1 flow_small fresh_world)))
     = Success (stamped clock2
                  [text_node ''n1'' (Finite 0) (Finite 0), text_node ''n2'' (Finite 250) (Finite 15),
                   text_node ''n3'' (Finite 500) (Finite 30)]
                  [link ''e1'' ''n1'' ''n2'', link ''e2'' ''n2'' ''n3''])
         ''Flow saved successfully'' None"
    unfolding flow_large_def
    by (rule save_flow_of_world_with) (use flow_large_valid in \<open>simp_all add: flow_large_def\<close>)
  then show ?thesis by simp
qed

text \<open>
  The other way the backup can be missing after two successful saves: the medium
  refuses the write of the backup copy, which \<open>createBackup\<close> swallows.
\<close>

lemma no_room_medium [simp]:
  "available world_no_room_for_backup"
  "ls_reject world_no_room_for_backup CURRENT_FLOW val = None"
  "\<not> accepts world_no_room_for_backup BACKUP_FLOW val"
  by (simp_all add: available_def accepts_def world_no_room_for_backup_def key_defs)

lemma slot_no_room: "slot key world_no_room_for_backup = None"
  by (simp add: slot_eq) (simp add: world_no_room_for_backup_def)

section \<open>Properties of the storage manager\<close>

subsection \<open>Structural validation of a flow\<close>

text \<open>
  C9, amended. \<open>validateFlowData\<close> reports a value valid exactly when it is a non-null
  object whose \<open>nodes\<close> and \<open>edges\<close> are arrays, every node has an id, a type and a
  position that is an object with numeric \<open>x\<close> and \<open>y\<close>, and every edge has an id, a
  source and a target. On failure it reports one thing only: that the value is no object,
  that \<open>nodes\<close> or \<open>edges\<close> is no array, or the first offending element, nodes in order
  before edges. For that element it gives the index and the fields required, unless the
  element is \<open>undefined\<close> or \<open>null\<close>: then the report is the message of the exception
  raised, which names no index.
\<close>

theorem validateFlowData_structural_check:
  "isValid (validateFlowData v) = spec_flow_valid v \<and>
   (isValid (validateFlowData v) \<longrightarrow> error (validateFlowData v) = None) \<and>
   (\<not> is_object v \<longrightarrow> error (validateFlowData v) = Some ''Flow data must be a valid object'') \<and>
   (is_object v \<and> \<not> isArray (own_prop v ''nodes'') \<longrightarrow>
      error (validateFlowData v) = Some ''Nodes must be an array'') \<and>
   (is_object v \<and> isArray (own_prop v ''nodes'') \<and> \<not> isArray (own_prop v ''edges'') \<longrightarrow>
      error (validateFlowData v) = Some ''Edges must be an array'') \<and>
   (is_object v \<and> isArray (own_prop v ''nodes'') \<and> isArray (own_prop v ''edges'') \<longrightarrow>
      (\<forall>i. first_offender spec_node_ok (elements (own_prop v ''nodes'')) = Some i \<longrightarrow>
         error (validateFlowData v)
           = Some (node_report i (elements (own_prop v ''nodes'') ! i))) \<and>
      (first_offender spec_node_ok (elements (own_prop v ''nodes'')) = None \<longrightarrow>
         (\<forall>j. first_offender spec_edge_ok (elements (own_prop v ''edges'')) = Some j \<longrightarrow>
            error (validateFlowData v)
              = Some (edge_report j (elements (own_prop v ''edges'') ! j)))))"
  by (auto simp: validateFlowData_eq invalid_def spec_flow_valid_def
      first_offender_None_iff [symmetric] split: option.splits)

text \<open>
  C9, as stated, fails on a node list that holds \<open>null\<close>: the node at index 0 offends,
  validation fails, and the report is the caught exception's message, not an index.
\<close>

theorem validateFlowData_null_element_counterexample:
  "\<not> isValid (validateFlowData flow_null_node) \<and>
   first_offender spec_node_ok (elements (own_prop flow_null_node ''nodes'')) = Some 0 \<and>
   error (validateFlowData flow_null_node)
     = Some (''Validation error: Cannot read properties of null (reading ''
             @ [CHR 0x27] @ ''id'' @ [CHR 0x27] @ '')'') \<and>
   error (validateFlowData flow_null_node) \<noteq> Some (node_missing_fields 0) \<and>
   error (validateFlowData flow_null_node) \<noteq> Some (node_invalid_position 0)"
  by (simp add: validate_defs flow_null_node_def flow_of_def cannot_read_def
      first_offender_def spec_node_ok_def has_field_def node_missing_fields_def
      node_invalid_position_def)

text \<open>
  A flow with offending nodes at indices 1 and 2 and an offending edge: the report names
  index 1 only. The two-node flow is valid.
\<close>

theorem validateFlowData_structural_check_witness:
  "is_object flow_offenders \<and> isArray (own_prop flow_offenders ''nodes'') \<and>
   isArray (own_prop flow_offenders ''edges'') \<and>
   first_offender spec_node_ok (elements (own_prop flow_offenders ''nodes'')) = Some 1 \<and>
   \<not> spec_flow_valid flow_offenders \<and>
   \<not> isValid (validateFlowData flow_offenders) \<and>
   error (validateFlowData flow_offenders)
     = Some ''Node at index 1 is missing required fields (id, type, position)'' \<and>
   spec_flow_valid flow_small \<and>
   isValid (validateFlowData flow_small)"
proof -
  have nodes: "own_prop flow_offenders ''nodes''
                 = JArr [text_node ''n1'' (Finite 0) (Finite 0),
                         JObj [(''id'', JStr ''n2''), (''type'', JStr ''textMessage'')],
                         JObj [(''id'', JStr []), (''position'', JStr ''here'')]]"
    by (simp add: flow_offenders_def flow_of_def)
  have obj: "is_object flow_offenders" "isArray (own_prop flow_offenders ''edges'')"
    by (simp_all add: flow_offenders_def flow_of_def)
  have off: "first_offender spec_node_ok (elements (own_prop flow_offenders ''nodes'')) = Some 1"
    unfolding nodes
    by (simp add: first_offender_Cons spec_node_ok_def has_field_def nullish_def text_node_def)
  have rep: "node_report 1 (elements (own_prop flow_offenders ''nodes'') ! 1)
               = ''Node at index 1 is missing required fields (id, type, position)''"
    unfolding nodes
    by (simp add: node_report_def has_field_def nullish_def node_missing_fields_def
        string_of_nat_small)
  have small: "validateFlowData flow_small = \<lparr>isValid = True, error = None\<rparr>"
    by (rule flow_small_valid)
  from validateFlowData_structural_check [of flow_offenders]
       validateFlowData_structural_check [of flow_small] nodes obj off rep small
  show ?thesis by auto
qed

subsection \<open>Loading\<close>

text \<open>
  C8. When the current slot is empty, \<open>getCurrentFlow\<close> returns a success result whose
  data is \<open>null\<close>, not an error.
\<close>

theorem getCurrentFlow_empty_slot:
  "slot CURRENT_FLOW w = None \<Longrightarrow>
     fst (getCurrentFlow w) = Success JNull ''No saved flow found'' None \<and>
     success (fst (getCurrentFlow w)) \<and> res_data (fst (getCurrentFlow w)) = JNull"
  by (simp add: getCurrentFlow_def storageWrapper_getItem_eq if_text_def)

text \<open>On a medium that holds nothing the current slot is empty.\<close>

theorem getCurrentFlow_empty_slot_witness:
  "slot CURRENT_FLOW fresh_world = None \<and>
   fst (getCurrentFlow fresh_world) = Success JNull ''No saved flow found'' None"
  using getCurrentFlow_empty_slot [of fresh_world] slot_fresh [of CURRENT_FLOW] by simp




text \<open>
  C10. The data returned by the recovery path is not validated: whenever the current slot
  and the backup slot both hold text that deserializes but fails structural validation,
  \<open>getCurrentFlow\<close> returns success with the structurally invalid backup data
  (\<open>loadBackup\<close> checks presence and deserializability only).
\<close>

theorem getCurrentFlow_returns_unvalidated_backup:
  "slot CURRENT_FLOW w = Some (JsonText cur) \<Longrightarrow> \<not> isValid (validateFlowData cur) \<Longrightarrow>
   slot BACKUP_FLOW w = Some (JsonText bak) \<Longrightarrow> \<not> isValid (validateFlowData bak) \<Longrightarrow>
     fst (getCurrentFlow w) =
       Success bak ''Loaded from backup due to corrupted primary data''
         (Some ''Primary flow data was corrupted'') \<and>
     success (fst (getCurrentFlow w)) \<and>
     \<not> isValid (validateFlowData (res_data (fst (getCurrentFlow w))))"
  using loadBackup_json [of "probed w" bak]
  by (simp add: getCurrentFlow_def storageWrapper_getItem_eq if_text_def JSON_parse_def Let_def
      case_prod_beta)

text \<open>
  Such contents exist: a current record whose \<open>nodes\<close> is a string, a backup record
  that holds nothing but its backup tags.
\<close>

theorem getCurrentFlow_returns_unvalidated_backup_witness:
  "slot CURRENT_FLOW world_both_invalid = Some (JsonText invalid_current) \<and>
   \<not> isValid (validateFlowData invalid_current) \<and>
   slot BACKUP_FLOW world_both_invalid = Some (JsonText invalid_backup) \<and>
   \<not> isValid (validateFlowData invalid_backup) \<and>
   fst (getCurrentFlow world_both_invalid) =
     Success invalid_backup ''Loaded from backup due to corrupted primary data''
       (Some ''Primary flow data was corrupted'')"
proof -
  have c: "slot CURRENT_FLOW world_both_invalid = Some (JsonText invalid_current)"
    by (simp add: world_both_invalid_def slot_world_with key_defs)
  have b: "slot BACKUP_FLOW world_both_invalid = Some (JsonText invalid_backup)"
    by (simp add: world_both_invalid_def slot_world_with key_defs)
  have ci: "\<not> isValid (validateFlowData invalid_current)"
    by (simp add: invalid_current_invalid invalid_def)
  have bi: "\<not> isValid (validateFlowData invalid_backup)"
    by (simp add: invalid_backup_invalid invalid_def)
  from getCurrentFlow_returns_unvalidated_backup [OF c ci b bi] c b ci bi
  show ?thesis by blast
qed

subsection \<open>Saving and reading back\<close>

text \<open>
  C4. The metadata-stamped form exists for every flow that is not \<open>undefined\<close> or
  \<open>null\<close> (\<open>enhance_defined\<close>). When it fails structural validation,
  \<open>saveCurrentFlow\<close> returns a failure with code \<open>VALIDATION_ERROR\<close> and the current
  slot is as before. Nothing is changed but the backup slot (and the scratch key
  of the availability probe); the backup write comes before validation: when the current
  slot held a valid flow and the medium accepts its backup copy, the backup slot holds
  that copy afterwards, and \<open>loadBackup\<close> then returns the prior current flow (a JSON
  value, as every deserialized text is) with its nodes, its edges and every other
  property as they were, tagged with \<open>isBackup\<close> and \<open>backupCreatedAt\<close>.
\<close>

theorem saveCurrentFlow_validation_failure:
  "enhance now flowData = Inr enhanced \<Longrightarrow> \<not> isValid (validateFlowData enhanced) \<Longrightarrow>
     (\<exists>reason. error (validateFlowData enhanced) = Some reason \<and>
        fst (saveCurrentFlow now flowData w)
          = Failure (''Flow validation failed: '' @ reason) ''VALIDATION_ERROR'' None None) \<and>
     slot CURRENT_FLOW (snd (saveCurrentFlow now flowData w)) = slot CURRENT_FLOW w \<and>
     unchanged_except {BACKUP_FLOW, test_key} w (snd (saveCurrentFlow now flowData w)) \<and>
     (\<forall>cur. slot CURRENT_FLOW w = Some (JsonText cur) \<and> isValid (validateFlowData cur) \<and>
        accepts w BACKUP_FLOW (JSON_stringify (backupData (backupCreatedAt_now now) cur)) \<longrightarrow>
        slot BACKUP_FLOW (snd (saveCurrentFlow now flowData w))
          = Some (JSON_stringify (backupData (backupCreatedAt_now now) cur)) \<and>
        (is_json cur \<longrightarrow>
           success (fst (loadBackup (snd (saveCurrentFlow now flowData w)))) \<and>
           own_prop (res_data (fst (loadBackup (snd (saveCurrentFlow now flowData w))))) ''nodes''
             = own_prop cur ''nodes'' \<and>
           own_prop (res_data (fst (loadBackup (snd (saveCurrentFlow now flowData w))))) ''edges''
             = own_prop cur ''edges'' \<and>
           (\<forall>key. key \<noteq> ''isBackup'' \<and> key \<noteq> ''backupCreatedAt'' \<longrightarrow>
              own_prop (res_data (fst (loadBackup (snd (saveCurrentFlow now flowData w))))) key
                = own_prop cur key) \<and>
           own_prop (res_data (fst (loadBackup (snd (saveCurrentFlow now flowData w)))))
             ''isBackup'' = JBool True \<and>
           own_prop (res_data (fst (loadBackup (snd (saveCurrentFlow now flowData w)))))
             ''backupCreatedAt'' = JStr (backupCreatedAt_now now)))"
proof -
  assume e: "enhance now flowData = Inr enhanced" and inv: "\<not> isValid (validateFlowData enhanced)"
  let ?t = "backupCreatedAt_now now"
  let ?w' = "snd (saveCurrentFlow now flowData w)"
  have s: "saveCurrentFlow now flowData w =
             (Failure (''Flow validation failed: '' @
                        (case error (validateFlowData enhanced) of Some m \<Rightarrow> m | None \<Rightarrow> ''null''))
                ''VALIDATION_ERROR'' None None, after_backup now w)"
    using e inv by (simp add: saveCurrentFlow_eq)
  obtain reason where r: "error (validateFlowData enhanced) = Some reason"
    using invalid_has_error [OF inv] by blast
  have backup: "slot BACKUP_FLOW ?w' = Some (JSON_stringify (backupData ?t cur))"
    if "slot CURRENT_FLOW w = Some (JsonText cur)" "isValid (validateFlowData cur)"
       "accepts w BACKUP_FLOW (JSON_stringify (backupData ?t cur))"
    for cur
  proof -
    have "fst (getCurrentFlow w) = Success cur ''Flow loaded successfully'' None"
      using that(1,2) by (rule getCurrentFlow_valid)
    moreover have "truthy cur"
      using that(2) valid_is_object [of cur] by (simp add: is_object_iff)
    ultimately show ?thesis using that(3) by (simp add: s after_backup_backup)
  qed
  have loaded: "success (fst (loadBackup ?w')) \<and>
      own_prop (res_data (fst (loadBackup ?w'))) ''nodes'' = own_prop cur ''nodes'' \<and>
      own_prop (res_data (fst (loadBackup ?w'))) ''edges'' = own_prop cur ''edges'' \<and>
      (\<forall>key. key \<noteq> ''isBackup'' \<and> key \<noteq> ''backupCreatedAt'' \<longrightarrow>
         own_prop (res_data (fst (loadBackup ?w'))) key = own_prop cur key) \<and>
      own_prop (res_data (fst (loadBackup ?w'))) ''isBackup'' = JBool True \<and>
      own_prop (res_data (fst (loadBackup ?w'))) ''backupCreatedAt'' = JStr ?t"
    if c: "slot CURRENT_FLOW w = Some (JsonText cur)" "isValid (validateFlowData cur)"
       "accepts w BACKUP_FLOW (JSON_stringify (backupData ?t cur))" and j: "is_json cur"
    for cur
  proof -
    obtain props where p: "cur = JObj props" using valid_is_record [OF c(2)] by blast
    have pj: "props_json props" using j by (simp add: p)
    have fixed: "json_value (backupData ?t cur) = backupData ?t cur"
      using backupData_is_json [OF pj] by (simp add: p is_json_fixed)
    have "slot BACKUP_FLOW ?w' = Some (JsonText (backupData ?t cur))"
      using backup [OF c] by (simp add: JSON_stringify_def fixed)
    then have l: "fst (loadBackup ?w')
                    = Success (backupData ?t cur) ''Backup loaded successfully'' None"
      by (rule loadBackup_json)
    have other: "own_prop (backupData ?t cur) key = own_prop cur key"
      if "key \<noteq> ''isBackup''" "key \<noteq> ''backupCreatedAt''" for key
      using backupData_prop [OF that, of ?t props] by (simp add: p)
    show ?thesis
      by (simp add: l other backupData_tags)
  qed
  have slots: "slot CURRENT_FLOW ?w' = slot CURRENT_FLOW w"
    and frame: "unchanged_except {BACKUP_FLOW, test_key} w ?w'"
    using after_backup_unchanged [of w now] by (simp_all add: s)
  have res: "\<exists>reason. error (validateFlowData enhanced) = Some reason \<and>
        fst (saveCurrentFlow now flowData w)
          = Failure (''Flow validation failed: '' @ reason) ''VALIDATION_ERROR'' None None"
    using r by (simp add: s)
  from res slots frame backup loaded show ?thesis by blast
qed

text \<open>
  Saving a flow whose node list holds \<open>null\<close> over a stored two-node flow: the save is
  refused, the current slot still holds the two-node flow, and the backup slot, empty
  before, now holds its copy: \<open>loadBackup\<close> returns the two nodes and the edge.
\<close>

theorem saveCurrentFlow_validation_failure_witness:
  "enhance clock2 flow_null_node = Inr (stamped clock2 [JNull] []) \<and>
   \<not> isValid (validateFlowData (stamped clock2 [JNull] [])) \<and>
   \<not> success (fst (saveCurrentFlow clock2 flow_null_node world_saved_small)) \<and>
   res_code (fst (saveCurrentFlow clock2 flow_null_node world_saved_small))
     = ''VALIDATION_ERROR'' \<and>
   slot CURRENT_FLOW (snd (saveCurrentFlow clock2 flow_null_node world_saved_small))
     = Some (JsonText flow_small) \<and>
   slot BACKUP_FLOW world_saved_small = None \<and>
   success (fst (loadBackup (snd (saveCurrentFlow clock2 flow_null_node world_saved_small)))) \<and>
   own_prop (res_data (fst (loadBackup
       (snd (saveCurrentFlow clock2 flow_null_node world_saved_small))))) ''nodes''
     = JArr [text_node ''n1'' (Finite 0) (Finite 0), text_node ''n2'' (Finite 250) (Finite 15)] \<and>
   own_prop (res_data (fst (loadBackup
       (snd (saveCurrentFlow clock2 flow_null_node world_saved_small))))) ''edges''
     = JArr [link ''e1'' ''n1'' ''n2''] \<and>
   own_prop (res_data (fst (loadBackup
       (snd (saveCurrentFlow clock2 flow_null_node world_saved_small))))) ''isBackup''
     = JBool True \<and>
   own_prop (res_data (fst (loadBackup
       (snd (saveCurrentFlow clock2 flow_null_node world_saved_small))))) ''backupCreatedAt''
     = JStr ''2024-01-02T09:30:00.000Z''"
proof -
  let ?w' = "snd (saveCurrentFlow clock2 flow_null_node world_saved_small)"
  have e: "enhance clock2 flow_null_node = Inr (stamped clock2 [JNull] [])"
    by (simp add: flow_null_node_def enhance_flow_of)
  have i: "\<not> isValid (validateFlowData (stamped clock2 [JNull] []))"
    using flow_null_node_invalid by (simp add: stamped_valid flow_null_node_def)
  have t: "backupCreatedAt_now clock2 = ''2024-01-02T09:30:00.000Z''"
    by (simp add: clock2_def)
  have a: "accepts world_saved_small BACKUP_FLOW val" for val
    by (simp add: world_saved_small_def)
  note inst = saveCurrentFlow_validation_failure [OF e i, of world_saved_small]
  from inst have r: "\<not> success (fst (saveCurrentFlow clock2 flow_null_node world_saved_small))"
      "res_code (fst (saveCurrentFlow clock2 flow_null_node world_saved_small))
         = ''VALIDATION_ERROR''"
    by auto
  from inst have c: "slot CURRENT_FLOW ?w' = Some (JsonText flow_small)"
    by (simp add: slot_world_saved_small)
  from inst have "slot CURRENT_FLOW world_saved_small = Some (JsonText flow_small) \<and>
        isValid (validateFlowData flow_small) \<and>
        accepts world_saved_small BACKUP_FLOW
          (JSON_stringify (backupData (backupCreatedAt_now clock2) flow_small)) \<longrightarrow>
        slot BACKUP_FLOW ?w'
          = Some (JSON_stringify (backupData (backupCreatedAt_now clock2) flow_small)) \<and>
        (is_json flow_small \<longrightarrow>
           success (fst (loadBackup ?w')) \<and>
           own_prop (res_data (fst (loadBackup ?w'))) ''nodes'' = own_prop flow_small ''nodes'' \<and>
           own_prop (res_data (fst (loadBackup ?w'))) ''edges'' = own_prop flow_small ''edges'' \<and>
           (\<forall>key. key \<noteq> ''isBackup'' \<and> key \<noteq> ''backupCreatedAt'' \<longrightarrow>
              own_prop (res_data (fst (loadBackup ?w'))) key = own_prop flow_small key) \<and>
           own_prop (res_data (fst (loadBackup ?w'))) ''isBackup'' = JBool True \<and>
           own_prop (res_data (fst (loadBackup ?w'))) ''backupCreatedAt''
             = JStr (backupCreatedAt_now clock2))"
    by blast
  with slot_world_saved_small(1) flow_small_valid a flow_small_is_json
  have b: "success (fst (loadBackup ?w'))"
     "own_prop (res_data (fst (loadBackup ?w'))) ''nodes'' = own_prop flow_small ''nodes''"
     "own_prop (res_data (fst (loadBackup ?w'))) ''edges'' = own_prop flow_small ''edges''"
     "own_prop (res_data (fst (loadBackup ?w'))) ''isBackup'' = JBool True"
     "own_prop (res_data (fst (loadBackup ?w'))) ''backupCreatedAt''
        = JStr (backupCreatedAt_now clock2)"
    by simp_all
  from e i r c slot_world_saved_small(2) b [unfolded flow_small_parts t]
  show ?thesis by blast
qed

text \<open>
  C5, amended. After a successful \<open>saveCurrentFlow\<close> of a flow whose nodes and edges are
  representable in JSON (no \<open>undefined\<close>, no \<open>NaN\<close> or infinite number inside),
  \<open>getCurrentFlow\<close> returns success, without a warning, with data whose nodes and edges
  are exactly those of the flow saved. (A save only succeeds when storage is available
  and the flow is structurally valid.)
\<close>

theorem save_then_load_roundtrip:
  assumes save: "saveCurrentFlow now flowData w = (r, w')" and ok: "success r"
    and jn: "is_json (own_prop flowData ''nodes'')"
    and je: "is_json (own_prop flowData ''edges'')"
  shows "fst (getCurrentFlow w')
           = Success (json_value (res_data r)) ''Flow loaded successfully'' None \<and>
         own_prop (res_data (fst (getCurrentFlow w'))) ''nodes'' = own_prop flowData ''nodes'' \<and>
         own_prop (res_data (fst (getCurrentFlow w'))) ''edges'' = own_prop flowData ''edges'' \<and>
         available w \<and> isValid (validateFlowData flowData)"
proof -
  have r: "r = fst (saveCurrentFlow now flowData w)" and w': "w' = snd (saveCurrentFlow now flowData w)"
    using save by simp_all
  have s: "success (fst (saveCurrentFlow now flowData w))" using ok r by simp
  have e: "enhance now flowData = Inr (res_data r)"
    using saveCurrentFlow_success_data [OF s] r by simp
  have v: "isValid (validateFlowData (res_data r))" and av: "available w"
    using s e unfolding saveCurrentFlow_success_iff by auto
  have cur: "slot CURRENT_FLOW w' = Some (JsonText (json_value (res_data r)))"
    using s by (simp add: w' r saveCurrentFlow_current_slot JSON_stringify_def)
  have "fst (getCurrentFlow w')
          = Success (json_value (res_data r)) ''Flow loaded successfully'' None"
    using cur stored_enhanced(1) [OF e v jn je] by (rule getCurrentFlow_valid)
  moreover have "isValid (validateFlowData flowData)"
    using valid_enhanced_flow [OF e v] v by simp
  ultimately show ?thesis
    using stored_enhanced(2,3) [OF e v jn je] av by simp
qed

text \<open>
  C5, as stated, fails for a structurally valid flow with a node coordinate \<open>NaN\<close>
  (\<open>typeof NaN\<close> is \<open>number\<close>): the save succeeds, the JSON text holds \<open>null\<close> for the
  coordinate, and loading that text fails structural validation.
\<close>

theorem save_then_load_nan_counterexample:
  "isValid (validateFlowData flow_nan) \<and>
   success (fst (saveCurrentFlow clock1 flow_nan fresh_world)) \<and>
   fst (getCurrentFlow (snd (saveCurrentFlow clock1 flow_nan fresh_world)))
     = Failure ''Invalid flow data: Node at index 0 has invalid position data''
         ''INVALID_DATA'' None None"
  by (simp add: flow_nan_valid save_nan load_after_save_nan)

text \<open>The two-node flow, saved on an empty medium, is read back with its nodes and edges.\<close>

theorem save_then_load_roundtrip_witness:
  "success (fst (saveCurrentFlow clock1 flow_small fresh_world)) \<and>
   is_json (own_prop flow_small ''nodes'') \<and> is_json (own_prop flow_small ''edges'') \<and>
   success (fst (getCurrentFlow (snd (saveCurrentFlow clock1 flow_small fresh_world)))) \<and>
   own_prop (res_data (fst (getCurrentFlow (snd (saveCurrentFlow clock1 flow_small fresh_world)))))
      ''nodes''
     = JArr [text_node ''n1'' (Finite 0) (Finite 0), text_node ''n2'' (Finite 250) (Finite 15)] \<and>
   own_prop (res_data (fst (getCurrentFlow (snd (saveCurrentFlow clock1 flow_small fresh_world)))))
      ''edges''
     = JArr [link ''e1'' ''n1'' ''n2'']"
proof -
  have ok: "success (fst (saveCurrentFlow clock1 flow_small fresh_world))"
    by (simp add: save_small_fresh)
  note rt = save_then_load_roundtrip
    [OF prod.collapse [symmetric] ok flow_small_json, unfolded flow_small_parts]
  have loaded: "success (fst (getCurrentFlow (snd (saveCurrentFlow clock1 flow_small fresh_world))))"
    by (simp add: rt [THEN conjunct1])
  from ok flow_small_json loaded rt show ?thesis by blast
qed

subsection \<open>The rolling backup\<close>

text \<open>
  C6, amended. After \<open>saveCurrentFlow\<close> of \<open>flow1\<close> succeeds and then \<open>saveCurrentFlow\<close>
  of \<open>flow2\<close> succeeds, where the nodes and edges of \<open>flow1\<close> are representable in JSON
  and the medium accepts the write of the backup copy, \<open>loadBackup\<close> returns success with
  the record of \<open>flow1\<close> as it was stored, tagged with \<open>isBackup\<close> and
  \<open>backupCreatedAt\<close>; its nodes and edges are those of \<open>flow1\<close>.
\<close>

theorem second_save_backs_up_first:
  assumes save1: "saveCurrentFlow now1 flow1 w0 = (r1, w1)" and ok1: "success r1"
    and save2: "saveCurrentFlow now2 flow2 w1 = (r2, w2)" and ok2: "success r2"
    and jn: "is_json (own_prop flow1 ''nodes'')"
    and je: "is_json (own_prop flow1 ''edges'')"
    and acc: "accepts w0 BACKUP_FLOW
                (JSON_stringify (backupData (backupCreatedAt_now now2) (json_value (res_data r1))))"
  shows "fst (loadBackup w2)
           = Success (backupData (backupCreatedAt_now now2) (json_value (res_data r1)))
               ''Backup loaded successfully'' None \<and>
         own_prop (res_data (fst (loadBackup w2))) ''nodes'' = own_prop flow1 ''nodes'' \<and>
         own_prop (res_data (fst (loadBackup w2))) ''edges'' = own_prop flow1 ''edges'' \<and>
         own_prop (res_data (fst (loadBackup w2))) ''isBackup'' = JBool True \<and>
         own_prop (res_data (fst (loadBackup w2))) ''backupCreatedAt''
           = JStr (backupCreatedAt_now now2)"
proof -
  let ?t = "backupCreatedAt_now now2"
  let ?stored = "json_value (res_data r1)"
  have r1: "r1 = fst (saveCurrentFlow now1 flow1 w0)"
    and w1: "w1 = snd (saveCurrentFlow now1 flow1 w0)"
    using save1 by simp_all
  have w2: "w2 = snd (saveCurrentFlow now2 flow2 w1)" using save2 by simp
  have s: "success (fst (saveCurrentFlow now1 flow1 w0))" using ok1 r1 by simp
  have e: "enhance now1 flow1 = Inr (res_data r1)"
    using saveCurrentFlow_success_data [OF s] r1 by simp
  have v: "isValid (validateFlowData (res_data r1))"
    using s e unfolding saveCurrentFlow_success_iff by auto
  note st = stored_enhanced [OF e v jn je]
  obtain props where props: "?stored = JObj props" "props_json props"
    using st(5) by blast
  have cur: "slot CURRENT_FLOW w1 = Some (JsonText ?stored)"
    using s by (simp add: w1 r1 saveCurrentFlow_current_slot JSON_stringify_def)
  have load: "fst (getCurrentFlow w1) = Success ?stored ''Flow loaded successfully'' None"
    using cur st(1) by (rule getCurrentFlow_valid)
  have acc1: "accepts w1 BACKUP_FLOW (JSON_stringify (backupData ?t ?stored))"
    using acc by (simp add: w1)
  have fixed: "json_value (backupData ?t ?stored) = backupData ?t ?stored"
    using backupData_is_json [OF props(2)] by (simp add: props(1) is_json_fixed)
  have "slot BACKUP_FLOW w2 = slot BACKUP_FLOW (after_backup now2 w1)"
    by (simp add: w2 saveCurrentFlow_backup_slot)
  also have "\<dots> = Some (JSON_stringify (backupData ?t ?stored))"
    using load acc1 by (simp add: after_backup_backup props(1))
  also have "\<dots> = Some (JsonText (backupData ?t ?stored))"
    by (simp add: JSON_stringify_def fixed)
  finally have "fst (loadBackup w2)
                  = Success (backupData ?t ?stored) ''Backup loaded successfully'' None"
    by (rule loadBackup_json)
  moreover have "own_prop (backupData ?t ?stored) ''nodes'' = own_prop flow1 ''nodes''"
    using st(2) backupData_prop [of "''nodes''" ?t props] by (simp add: props(1))
  moreover have "own_prop (backupData ?t ?stored) ''edges'' = own_prop flow1 ''edges''"
    using st(3) backupData_prop [of "''edges''" ?t props] by (simp add: props(1))
  ultimately show ?thesis by (simp add: backupData_tags)
qed

text \<open>
  C6, as stated, fails when the first flow has a node coordinate \<open>NaN\<close>: both saves
  succeed, but the second save cannot read the first record back as a valid flow, makes no
  backup, and \<open>loadBackup\<close> finds none.
\<close>

theorem second_save_no_backup_counterexample:
  "isValid (validateFlowData flow_nan) \<and> isValid (validateFlowData flow_small) \<and>
   success (fst (saveCurrentFlow clock1 flow_nan fresh_world)) \<and>
   success (fst (saveCurrentFlow clock2 flow_small
                   (snd (saveCurrentFlow clock1 flow_nan fresh_world)))) \<and>
   fst (loadBackup (snd (saveCurrentFlow clock2 flow_small
                           (snd (saveCurrentFlow clock1 flow_nan fresh_world)))))
     = Failure ''No backup available'' ''NO_BACKUP'' None None"
proof -
  let ?w1 = "snd (saveCurrentFlow clock1 flow_nan fresh_world)"
  let ?w2 = "snd (saveCurrentFlow clock2 flow_small ?w1)"
  have ns: "\<not> success (fst (getCurrentFlow ?w1))"
    by (simp add: load_after_save_nan)
  have "slot BACKUP_FLOW ?w2 = slot BACKUP_FLOW (after_backup clock2 ?w1)"
    by (rule saveCurrentFlow_backup_slot)
  also have "\<dots> = slot BACKUP_FLOW ?w1"
    using ns by (simp only: after_backup_backup simp_thms if_False)
  also have "\<dots> = None" by (rule after_save_nan(2))
  finally have "fst (loadBackup ?w2) = Failure ''No backup available'' ''NO_BACKUP'' None None"
    by (rule loadBackup_none)
  then show ?thesis
    by (simp add: flow_nan_valid flow_small_valid save_nan save_small_after_nan)
qed

text \<open>
  The scenario of the specification: save the flow of two nodes and one edge, then the
  flow of three nodes and two edges; \<open>loadBackup\<close> returns the two-node flow.
\<close>

theorem second_save_backs_up_first_witness:
  "success (fst (saveCurrentFlow clock1 flow_small fresh_world)) \<and>
   success (fst (saveCurrentFlow clock2 flow_large
                   (snd (saveCurrentFlow clock1 flow_small fresh_world)))) \<and>
   is_json (own_prop flow_small ''nodes'') \<and> is_json (own_prop flow_small ''edges'') \<and>
   success (fst (loadBackup (snd (saveCurrentFlow clock2 flow_large
                                    (snd (saveCurrentFlow clock1 flow_small fresh_world)))))) \<and>
   own_prop (res_data (fst (loadBackup (snd (saveCurrentFlow clock2 flow_large
                                    (snd (saveCurrentFlow clock1 flow_small fresh_world)))))))
      ''nodes''
     = JArr [text_node ''n1'' (Finite 0) (Finite 0), text_node ''n2'' (Finite 250) (Finite 15)] \<and>
   own_prop (res_data (fst (loadBackup (snd (saveCurrentFlow clock2 flow_large
                                    (snd (saveCurrentFlow clock1 flow_small fresh_world)))))))
      ''edges''
     = JArr [link ''e1'' ''n1'' ''n2''] \<and>
   own_prop (res_data (fst (loadBackup (snd (saveCurrentFlow clock2 flow_large
                                    (snd (saveCurrentFlow clock1 flow_small fresh_world)))))))
      ''isBackup''
     = JBool True"
proof -
  have ok1: "success (fst (saveCurrentFlow clock1 flow_small fresh_world))"
    by (simp add: save_small_fresh)
  note ok2 = save_large_after_small
  have acc: "accepts fresh_world BACKUP_FLOW val" for val by simp
  note b = second_save_backs_up_first
    [OF prod.collapse [symmetric] ok1 prod.collapse [symmetric] ok2 flow_small_json acc,
     unfolded flow_small_parts]
  have loaded: "success (fst (loadBackup (snd (saveCurrentFlow clock2 flow_large
                                    (snd (saveCurrentFlow clock1 flow_small fresh_world))))))"
    by (simp add: b [THEN conjunct1])
  from ok1 ok2 flow_small_json loaded b show ?thesis by blast
qed

lemma second_save_backup_refused_example:
  "success (fst (saveCurrentFlow clock1 flow_small world_no_room_for_backup)) \<and>
   success (fst (saveCurrentFlow clock2 flow_large
                   (snd (saveCurrentFlow clock1 flow_small world_no_room_for_backup)))) \<and>
   fst (loadBackup (snd (saveCurrentFlow clock2 flow_large
                           (snd (saveCurrentFlow clock1 flow_small world_no_room_for_backup)))))
     = Failure ''No backup available'' ''NO_BACKUP'' None None"
proof -
  let ?w0 = world_no_room_for_backup
  let ?w1 = "snd (saveCurrentFlow clock1 flow_small ?w0)"
  let ?w2 = "snd (saveCurrentFlow clock2 flow_large ?w1)"
  have s1: "fst (saveCurrentFlow clock1 flow_small ?w0)
     = Success (stamped clock1
                  [text_node ''n1'' (Finite 0) (Finite 0), text_node ''n2'' (Finite 250) (Finite 15)]
                  [link ''e1'' ''n1'' ''n2''])
         ''Flow saved successfully'' None"
    unfolding flow_small_def
    by (rule save_flow_of_world_with) (use flow_small_valid in \<open>simp_all add: flow_small_def\<close>)
  have s2: "fst (saveCurrentFlow clock2 flow_large ?w1)
     = Success (stamped clock2
                  [text_node ''n1'' (Finite 0) (Finite 0), text_node ''n2'' (Finite 250) (Finite 15),
                   text_node ''n3'' (Finite 500) (Finite 30)]
                  [link ''e1'' ''n1'' ''n2'', link ''e2'' ''n2'' ''n3''])
         ''Flow saved successfully'' None"
    unfolding flow_large_def
    by (rule save_flow_of_world_with) (use flow_large_valid in \<open>simp_all add: flow_large_def\<close>)
  have "slot BACKUP_FLOW ?w1 = None"
    by (simp add: saveCurrentFlow_backup_slot after_backup_backup slot_no_room)
  then have "slot BACKUP_FLOW ?w2 = None"
    by (simp add: saveCurrentFlow_backup_slot after_backup_backup)
  then have "fst (loadBackup ?w2) = Failure ''No backup available'' ''NO_BACKUP'' None None"
    by (rule loadBackup_none)
  then show ?thesis by (simp add: s1 s2)
qed

end
